theory Spec2Isabelle
  imports Complex_Main
begin

section \<open>The TypeScript syntax tree as the analysers see it\<close>

text \<open>
  The analysers never build syntax trees themselves: \<^verbatim>\<open>ts.createSourceFile\<close> of the
  TypeScript compiler does.  The tree is therefore input data.  A node carries exactly
  what the repository's code reads from it: its syntax kind, the place it occupies in its
  parent (the code asks \<^verbatim>\<open>parent.arguments.includes(node)\<close> and
  \<^verbatim>\<open>parent.elseStatement === node\<close>), its name, its modifiers, the operator token of a
  binary expression, the zero-based line and character of \<^verbatim>\<open>getStart()\<close>, the
  zero-based line of \<^verbatim>\<open>getEnd()\<close>, and its children in \<^verbatim>\<open>ts.forEachChild\<close> order.
  Every node of a parsed file has both positions, so the \<^verbatim>\<open>catch\<close> fallbacks around
  the position lookups have no input here.

  Strings are lists of code units below 256; the character classes below are
  JavaScript's on that range.
\<close>

datatype SyntaxKind =
    ImportDeclaration | ExportDeclaration | ExportAssignment | ExpressionStatement
  | EmptyStatement | FunctionDeclaration | VariableStatement | VariableDeclarationList
  | VariableDeclaration | ClassDeclaration | InterfaceDeclaration | TypeAliasDeclaration
  | EnumDeclaration | ModuleDeclaration | ModuleBlock | ArrowFunction | FunctionExpression
  | MethodDeclaration | Constructor | PropertyDeclaration | GetAccessor | SetAccessor
  | IfStatement | ForStatement | ForInStatement | ForOfStatement | WhileStatement
  | DoStatement | CaseClause | CatchClause | ConditionalExpression | BinaryExpression
  | SwitchStatement | TryStatement | ReturnStatement | ThrowStatement | CallExpression
  | Block | Identifier | NumericLiteral | Parameter | EndOfFileToken
  | ExportKeyword | DefaultKeyword | AsyncKeyword | StaticKeyword | PrivateKeyword
  | AmpersandAmpersandToken | BarBarToken | QuestionQuestionToken | OtherKind

datatype Role = RoleArgument | RoleElseStatement | RoleInitializer | RoleOther

datatype NodeName = NoName | IdentifierName string | OtherName

datatype Node = Node
  (nkind: SyntaxKind)
  (nrole: Role)
  (nname: NodeName)
  (nmodifiers: "SyntaxKind list")
  (noperator: "SyntaxKind option")
  (nstart: "int \<times> int")
  (nend: int)
  (nchildren: "Node list")

text \<open>JavaScript's \<^verbatim>\<open>content.split('\n')\<close>: always at least one piece.\<close>

fun split_lines :: "string \<Rightarrow> string list" where
  "split_lines [] = [[]]"
| "split_lines (c # cs) =
     (if c = CHR 0x0A then [] # split_lines cs
      else (case split_lines cs of l # ls \<Rightarrow> (c # l) # ls | [] \<Rightarrow> [[c]]))"

text \<open>\<^verbatim>\<open>pieces.join('\n')\<close>.\<close>

fun join_lines :: "string list \<Rightarrow> string" where
  "join_lines [] = []"
| "join_lines [l] = l"
| "join_lines (l # ls) = l @ CHR 0x0A # join_lines ls"

text \<open>
  \<^verbatim>\<open>lines.slice(a, b)\<close> for integer arguments: negative indices count from the end, and
  the range is clamped to the array.
\<close>

definition slice :: "'a list \<Rightarrow> int \<Rightarrow> int \<Rightarrow> 'a list" where
  "slice xs a b =
     (let n = int (length xs);
          lo = (if a < 0 then max (n + a) 0 else min a n);
          hi = (if b < 0 then max (n + b) 0 else min b n)
      in take (nat (hi - lo)) (drop (nat lo) xs))"

section \<open>Incremental parser (src/analysis/incrementalParser.ts)\<close>

record CachedSymbol =
  name :: string
  kind :: string
  startLine :: int
  endLine :: int
  declarationLine :: int
  contentHash :: string

text \<open>
  \<^verbatim>\<open>FileCache\<close>.  Its field \<^verbatim>\<open>contentHash\<close> is \<open>fileHash\<close> here, the name being taken by
  \<^typ>\<open>CachedSymbol\<close>.
\<close>

record FileCache =
  filePath :: string
  fileHash :: string
  lineCount :: nat
  symbols :: "CachedSymbol list"
  lineIndex :: "int \<rightharpoonup> CachedSymbol"

text \<open>\<^verbatim>\<open>EditInfo\<close>; \<open>editStart\<close> and \<open>editEnd\<close> are its \<^verbatim>\<open>startLine\<close> and \<^verbatim>\<open>endLine\<close>.\<close>

record EditInfo =
  editStart :: int
  editEnd :: int
  linesDelta :: int

datatype ParseStrategy = Full | Partial | Skip

text \<open>
  \<^verbatim>\<open>IncrementalParseResult\<close> without \<^verbatim>\<open>timeMs\<close>, a wall-clock measurement that no
  decision reads.
\<close>

record IncrementalParseResult =
  resultSymbols :: "CachedSymbol list"
  parseStrategy :: ParseStrategy
  affectedSymbols :: "string list"

text \<open>
  The parser object's state is its \<^verbatim>\<open>fileCache\<close> map.  Two things come from outside
  the repository and are parameters of every operation: \<open>qh\<close>, the sixteen hex digits
  of MD5 that \<^verbatim>\<open>quickHash\<close> computes with Node's crypto module, and \<open>ts\<close>, the
  statements \<^verbatim>\<open>ts.createSourceFile(filePath, content, ...)\<close> returns.
\<close>

type_synonym ParserState = "string \<rightharpoonup> FileCache"

definition extractSymbol ::
  "(string \<Rightarrow> string) \<Rightarrow> Node \<Rightarrow> string list \<Rightarrow> CachedSymbol option" where
  "extractSymbol qh statement lines =
     (let nk =
        (if nkind statement = ClassDeclaration \<and> nname statement \<noteq> NoName
           then Some (nname statement, ''class'')
         else if nkind statement = InterfaceDeclaration \<and> nname statement \<noteq> NoName
           then Some (nname statement, ''interface'')
         else if nkind statement = FunctionDeclaration \<and> nname statement \<noteq> NoName
           then Some (nname statement, ''function'')
         else if nkind statement = TypeAliasDeclaration \<and> nname statement \<noteq> NoName
           then Some (nname statement, ''type'')
         else if nkind statement = EnumDeclaration \<and> nname statement \<noteq> NoName
           then Some (nname statement, ''enum'')
         else if nkind statement = VariableStatement
           then (case concat (map (\<lambda>l. filter (\<lambda>d. nkind d = VariableDeclaration) (nchildren l))
                        (filter (\<lambda>l. nkind l = VariableDeclarationList) (nchildren statement))) of
                   [] \<Rightarrow> None
                 | decl # _ \<Rightarrow>
                     (case nname decl of
                        IdentifierName n \<Rightarrow> Some (IdentifierName n, ''variable'')
                      | _ \<Rightarrow> None))
         else None)
      in case nk of
           Some (IdentifierName n, k) \<Rightarrow>
             if n = [] then None
             else
               (let startLine = fst (nstart statement) + 1; endLine = nend statement + 1;
                    symbolContent = join_lines (slice lines (startLine - 1) endLine)
                in Some \<lparr> name = n, kind = k, startLine = startLine, endLine = endLine,
                          declarationLine = startLine, contentHash = qh symbolContent \<rparr>)
         | _ \<Rightarrow> None)"

definition fullParse ::
  "(string \<Rightarrow> string) \<Rightarrow> (string \<Rightarrow> string \<Rightarrow> Node list) \<Rightarrow> string \<Rightarrow> string
     \<Rightarrow> CachedSymbol list" where
  "fullParse qh ts path content =
     List.map_filter (\<lambda>statement. extractSymbol qh statement (split_lines content))
       (ts path content)"

definition cacheFile ::
  "(string \<Rightarrow> string) \<Rightarrow> ParserState \<Rightarrow> string \<Rightarrow> string \<Rightarrow> CachedSymbol list
     \<Rightarrow> ParserState" where
  "cacheFile qh st path content syms =
     st(path \<mapsto>
        \<lparr> filePath = path, fileHash = qh content,
          lineCount = length (split_lines content), symbols = syms,
          lineIndex =
            fold (\<lambda>sym m. fold (\<lambda>line m'. m'(line \<mapsto> sym)) [startLine sym..endLine sym] m)
              syms Map.empty \<rparr>)"

definition adjustLineNumbers :: "CachedSymbol list \<Rightarrow> EditInfo \<Rightarrow> CachedSymbol list" where
  "adjustLineNumbers syms editInfo =
     map (\<lambda>sym.
            if startLine sym > editEnd editInfo then
              sym\<lparr> startLine := startLine sym + linesDelta editInfo,
                   endLine := endLine sym + linesDelta editInfo,
                   declarationLine := declarationLine sym + linesDelta editInfo \<rparr>
            else if endLine sym \<ge> editStart editInfo then
              sym\<lparr> endLine := endLine sym + linesDelta editInfo \<rparr>
            else sym)
         syms"

subsection \<open>The declaration-count regular expressions\<close>

text \<open>
  \<^verbatim>\<open>quickDeclarationCount\<close> runs three regular expressions with the flags \<^verbatim>\<open>gm\<close>
  over the content and collects the line numbers of the matches in a set:
  \<^verbatim>\<open>/^export\s+(default\s+)?(class|interface|function|type|enum|const|let|var)\s+/\<close>,
  \<^verbatim>\<open>/^(class|interface|function|type|enum)\s+\w+/\<close> and
  \<^verbatim>\<open>/^(const|let|var)\s+\w+\s*[=:]/\<close>.
  Each is a sequence of literals, greedy runs and one ordered choice, and in each a greedy
  run is followed by a character outside the run's class, so giving characters back never
  helps: a matcher that takes every run whole and tries the choices in order finds
  exactly the match the backtracking engine finds.  A matcher returns the text left after
  the match.
\<close>

definition is_space :: "char \<Rightarrow> bool" where
  "is_space c \<longleftrightarrow> c \<in> {CHR 0x09, CHR 0x0A, CHR 0x0B, CHR 0x0C, CHR 0x0D, CHR 0x20, CHR 0xA0}"

definition is_word :: "char \<Rightarrow> bool" where
  "is_word c \<longleftrightarrow>
     (let n = (of_char c :: nat)
      in (97 \<le> n \<and> n \<le> 122) \<or> (65 \<le> n \<and> n \<le> 90) \<or> (48 \<le> n \<and> n \<le> 57) \<or> n = 95)"

definition is_line_terminator :: "char \<Rightarrow> bool" where
  "is_line_terminator c \<longleftrightarrow> c = CHR 0x0A \<or> c = CHR 0x0D"

fun lit :: "string \<Rightarrow> string \<Rightarrow> string option" where
  "lit [] s = Some s"
| "lit (p # ps) [] = None"
| "lit (p # ps) (c # cs) = (if p = c then lit ps cs else None)"

definition plus_run :: "(char \<Rightarrow> bool) \<Rightarrow> string \<Rightarrow> string option" where
  "plus_run P s = (if takeWhile P s = [] then None else Some (dropWhile P s))"

definition star_run :: "(char \<Rightarrow> bool) \<Rightarrow> string \<Rightarrow> string" where
  "star_run P s = dropWhile P s"

fun choice :: "string list \<Rightarrow> (string \<Rightarrow> string option) \<Rightarrow> string \<Rightarrow> string option" where
  "choice [] k s = None"
| "choice (w # ws) k s =
     (case Option.bind (lit w s) k of Some r \<Rightarrow> Some r | None \<Rightarrow> choice ws k s)"

definition pattern1 :: "string \<Rightarrow> string option" where
  "pattern1 s =
     Option.bind (lit ''export'' s) (\<lambda>s1.
     Option.bind (plus_run is_space s1) (\<lambda>s2.
       let keyword = choice [''class'', ''interface'', ''function'', ''type'', ''enum'',
                             ''const'', ''let'', ''var''] (plus_run is_space)
       in case Option.bind (lit ''default'' s2) (\<lambda>s3.
                 Option.bind (plus_run is_space s3) keyword) of
            Some r \<Rightarrow> Some r
          | None \<Rightarrow> keyword s2))"

definition pattern2 :: "string \<Rightarrow> string option" where
  "pattern2 s =
     choice [''class'', ''interface'', ''function'', ''type'', ''enum'']
       (\<lambda>s1. Option.bind (plus_run is_space s1) (plus_run is_word)) s"

definition pattern3 :: "string \<Rightarrow> string option" where
  "pattern3 s =
     choice [''const'', ''let'', ''var'']
       (\<lambda>s1. Option.bind (plus_run is_space s1) (\<lambda>s2.
             Option.bind (plus_run is_word s2) (\<lambda>s3.
               case star_run is_space s3 of
                 c # r \<Rightarrow> if c = CHR ''='' \<or> c = CHR '':'' then Some r else None
               | [] \<Rightarrow> None))) s"

text \<open>
  The \<^verbatim>\<open>exec\<close> loop of one expression.  \<open>skip\<close> counts the characters of the last
  match still to pass (the next search starts at \<^verbatim>\<open>lastIndex\<close>), \<open>bol\<close> says that
  \<^verbatim>\<open>^\<close> holds here, and \<open>lineNum\<close> is
  \<^verbatim>\<open>content.substring(0, match.index).split('\n').length\<close> for a match starting here.
\<close>

fun exec_all :: "(string \<Rightarrow> string option) \<Rightarrow> nat \<Rightarrow> bool \<Rightarrow> nat \<Rightarrow> string \<Rightarrow> nat list" where
  "exec_all m skip bol lineNum [] = []"
| "exec_all m skip bol lineNum (c # cs) =
     (let lineNum' = (if c = CHR 0x0A then lineNum + 1 else lineNum); bol' = is_line_terminator c
      in if skip > 0 then exec_all m (skip - 1) bol' lineNum' cs
         else if bol then
           (case m (c # cs) of
              Some r \<Rightarrow> lineNum # exec_all m (length (c # cs) - length r - 1) bol' lineNum' cs
            | None \<Rightarrow> exec_all m 0 bol' lineNum' cs)
         else exec_all m 0 bol' lineNum' cs)"

definition quickDeclarationCount :: "string \<Rightarrow> nat" where
  "quickDeclarationCount content =
     card (set (concat (map (\<lambda>pattern. exec_all pattern 0 True 1 content)
                         [pattern1, pattern2, pattern3])))"

subsection \<open>The decision\<close>

definition tryPartialParse ::
  "(string \<Rightarrow> string) \<Rightarrow> ParserState \<Rightarrow> string \<Rightarrow> string \<Rightarrow> FileCache \<Rightarrow> EditInfo
     \<Rightarrow> (IncrementalParseResult \<times> ParserState) option" where
  "tryPartialParse qh st path newContent cached editInfo =
     (let affectedDeclarations =
            filter (\<lambda>sym. declarationLine sym \<ge> editStart editInfo
                          \<and> declarationLine sym \<le> editEnd editInfo) (symbols cached)
      in if length affectedDeclarations > 0 then None
         else
           (case find (\<lambda>sym. editStart editInfo > declarationLine sym
                              \<and> editEnd editInfo \<le> endLine sym) (symbols cached) of
              Some containingSymbol \<Rightarrow>
                let updatedSymbols = adjustLineNumbers (symbols cached) editInfo
                in Some (\<lparr> resultSymbols = updatedSymbols, parseStrategy = Skip,
                             affectedSymbols = [] \<rparr>,
                         cacheFile qh st path newContent updatedSymbols)
            | None \<Rightarrow>
                if int (quickDeclarationCount newContent) = int (length (symbols cached)) then
                  let updatedSymbols = adjustLineNumbers (symbols cached) editInfo
                  in Some (\<lparr> resultSymbols = updatedSymbols, parseStrategy = Partial,
                               affectedSymbols = [] \<rparr>,
                           cacheFile qh st path newContent updatedSymbols)
                else None))"

definition parseIncremental ::
  "(string \<Rightarrow> string) \<Rightarrow> (string \<Rightarrow> string \<Rightarrow> Node list) \<Rightarrow> ParserState \<Rightarrow> string \<Rightarrow> string
     \<Rightarrow> EditInfo option \<Rightarrow> IncrementalParseResult \<times> ParserState" where
  "parseIncremental qh ts st path newContent editInfo =
     (let newHash = qh newContent;
          fallback =
            (let syms = fullParse qh ts path newContent
             in (\<lparr> resultSymbols = syms, parseStrategy = Full,
                    affectedSymbols = map name syms \<rparr>,
                 cacheFile qh st path newContent syms))
      in case st path of
           None \<Rightarrow> fallback
         | Some cached \<Rightarrow>
             if fileHash cached = newHash then
               (\<lparr> resultSymbols = symbols cached, parseStrategy = Skip, affectedSymbols = [] \<rparr>,
                st)
             else
               (case editInfo of
                  None \<Rightarrow> fallback
                | Some e \<Rightarrow>
                    (case tryPartialParse qh st path newContent cached e of
                       Some r \<Rightarrow> r
                     | None \<Rightarrow> fallback)))"

text \<open>\<^verbatim>\<open>createEditInfo\<close>.\<close>

definition createEditInfo :: "int \<Rightarrow> int \<Rightarrow> int \<Rightarrow> int \<Rightarrow> EditInfo" where
  "createEditInfo oldLineCount newLineCount changeStartLine changeEndLine =
     \<lparr> editStart = changeStartLine, editEnd = changeEndLine,
       linesDelta = newLineCount - oldLineCount \<rparr>"

section \<open>Cache manager (src/cache/cacheManager.ts)\<close>

record 'a CacheEntry =
  key :: string
  hash :: string
  timestamp :: nat
  data :: 'a
  dependencies :: "string list"

text \<open>\<^verbatim>\<open>CacheStatistics\<close>; \<open>sizeBytes\<close> is its field \<^verbatim>\<open>size\<close>.\<close>

record CacheStatistics =
  hits :: nat
  misses :: nat
  sizeBytes :: int
  maxSize :: int
  evictions :: nat

text \<open>
  The manager's fields.  \<open>workspaceState\<close> is \<^verbatim>\<open>context.workspaceState\<close>, the persistent
  second tier; it outlives the manager object and is handed to the constructor with the
  extension context.  \<open>maxSizeMB\<close> is the configured whole number of megabytes.
\<close>

record 'a CacheManager =
  maxSizeMB :: int
  l1Cache :: "string \<rightharpoonup> 'a CacheEntry"
  l1Order :: "string list"
  l1SizeBytes :: int
  stats :: CacheStatistics
  workspaceState :: "string \<rightharpoonup> 'a CacheEntry"

definition newCacheManager :: "(string \<rightharpoonup> 'a CacheEntry) \<Rightarrow> int \<Rightarrow> 'a CacheManager" where
  "newCacheManager context mb =
     \<lparr> maxSizeMB = mb, l1Cache = Map.empty, l1Order = [], l1SizeBytes = 0,
       stats = \<lparr> hits = 0, misses = 0, sizeBytes = 0, maxSize = mb * 1024 * 1024,
                 evictions = 0 \<rparr>,
       workspaceState = context \<rparr>"

text \<open>
  From outside the repository: \<open>H\<close> is \<^verbatim>\<open>computeHash\<close> (sixteen hex digits of SHA-256),
  \<open>est\<close> is \<^verbatim>\<open>estimateSize\<close> (twice the length of \<^verbatim>\<open>JSON.stringify(entry)\<close>, or 1024),
  \<open>fs\<close> is the file system (\<open>None\<close> where \<^verbatim>\<open>readFile\<close> throws), \<open>now\<close> is
  \<^verbatim>\<open>Date.now()\<close>.
\<close>

definition getCacheKey :: "(string \<Rightarrow> string) \<Rightarrow> string \<Rightarrow> string" where
  "getCacheKey H path = ''typemap.cache.'' @ H path"

definition getFileHash :: "(string \<Rightarrow> string) \<Rightarrow> (string \<rightharpoonup> string) \<Rightarrow> string \<Rightarrow> string option" where
  "getFileHash H fs path = (case fs path of None \<Rightarrow> None | Some content \<Rightarrow> Some (H content))"

text \<open>The eviction loop of \<^verbatim>\<open>setL1\<close>.\<close>

function evictL1 :: "('a CacheEntry \<Rightarrow> nat) \<Rightarrow> int \<Rightarrow> int \<Rightarrow> 'a CacheManager \<Rightarrow> 'a CacheManager" where
  "evictL1 est entrySize maxBytes m =
     (if l1SizeBytes m + entrySize > maxBytes \<and> length (l1Order m) > 0 then
        (let oldestKey = hd (l1Order m);
             m1 = m\<lparr> l1Order := tl (l1Order m) \<rparr>
         in case l1Cache m1 oldestKey of
              Some oldEntry \<Rightarrow>
                evictL1 est entrySize maxBytes
                  (m1\<lparr> l1SizeBytes := l1SizeBytes m1 - int (est oldEntry),
                       l1Cache := (l1Cache m1)(oldestKey := None),
                       stats := (stats m1)\<lparr> evictions := evictions (stats m1) + 1 \<rparr> \<rparr>)
            | None \<Rightarrow> evictL1 est entrySize maxBytes m1)
      else m)"
  by pat_completeness auto
termination
  by (relation "measure (\<lambda>(est, entrySize, maxBytes, m). length (l1Order m))") auto

definition setL1 :: "('a CacheEntry \<Rightarrow> nat) \<Rightarrow> string \<Rightarrow> 'a CacheEntry \<Rightarrow> 'a CacheManager \<Rightarrow> 'a CacheManager" where
  "setL1 est k entry m =
     (let entrySize = int (est entry);
          maxBytes = maxSizeMB m * 1024 * 1024;
          m1 = evictL1 est entrySize maxBytes m
      in m1\<lparr> l1Cache := (l1Cache m1)(k \<mapsto> entry),
             l1Order := l1Order m1 @ [k],
             l1SizeBytes := l1SizeBytes m1 + entrySize,
             stats := (stats m1)\<lparr> sizeBytes := l1SizeBytes m1 + entrySize \<rparr> \<rparr>)"

definition touchL1 :: "string \<Rightarrow> 'a CacheManager \<Rightarrow> 'a CacheManager" where
  "touchL1 k m =
     (if k \<in> set (l1Order m) then m\<lparr> l1Order := remove1 k (l1Order m) @ [k] \<rparr> else m)"

text \<open>
  \<^verbatim>\<open>get\<close> returns the data (or \<^verbatim>\<open>null\<close>, here \<open>None\<close>) and the manager's new state.
  \<^verbatim>\<open>if (!hash)\<close> also rejects an empty digest.
\<close>

definition get ::
  "(string \<Rightarrow> string) \<Rightarrow> ('a CacheEntry \<Rightarrow> nat) \<Rightarrow> (string \<rightharpoonup> string) \<Rightarrow> string
     \<Rightarrow> 'a CacheManager \<Rightarrow> 'a option \<times> 'a CacheManager" where
  "get H est fs path m =
     (case getFileHash H fs path of
        None \<Rightarrow> (None, m)
      | Some h \<Rightarrow>
          if h = [] then (None, m)
          else
            (let k = getCacheKey H path;
                 l2 = (case workspaceState m k of
                         None \<Rightarrow> (None, m\<lparr> stats := (stats m)\<lparr> misses := misses (stats m) + 1 \<rparr> \<rparr>)
                       | Some l2Data \<Rightarrow>
                           if hash l2Data = h then
                             (let m1 = setL1 est k l2Data m
                              in (Some (data l2Data),
                                  m1\<lparr> stats := (stats m1)\<lparr> hits := hits (stats m1) + 1 \<rparr> \<rparr>))
                           else (None, m\<lparr> stats := (stats m)\<lparr> misses := misses (stats m) + 1 \<rparr> \<rparr>))
             in case l1Cache m k of
                  None \<Rightarrow> l2
                | Some l1Entry \<Rightarrow>
                    if hash l1Entry = h then
                      (let m1 = touchL1 k m
                       in (Some (data l1Entry),
                           m1\<lparr> stats := (stats m1)\<lparr> hits := hits (stats m1) + 1 \<rparr> \<rparr>))
                    else l2))"

text \<open>\<^verbatim>\<open>set\<close>, named \<open>cacheSet\<close> here.\<close>

definition cacheSet ::
  "(string \<Rightarrow> string) \<Rightarrow> ('a CacheEntry \<Rightarrow> nat) \<Rightarrow> nat \<Rightarrow> string \<Rightarrow> 'a \<Rightarrow> string
     \<Rightarrow> 'a CacheManager \<Rightarrow> 'a CacheManager" where
  "cacheSet H est now path d content m =
     (let k = getCacheKey H path;
          entry = \<lparr> key = k, hash = H content, timestamp = now, data = d, dependencies = [] \<rparr>;
          m1 = setL1 est k entry m
      in m1\<lparr> workspaceState := (workspaceState m1)(k \<mapsto> entry) \<rparr>)"

definition clear :: "'a CacheManager \<Rightarrow> 'a CacheManager" where
  "clear m =
     m\<lparr> l1Cache := Map.empty, l1Order := [], l1SizeBytes := 0,
        stats := \<lparr> hits = 0, misses = 0, sizeBytes = 0, maxSize = maxSizeMB m * 1024 * 1024,
                   evictions = 0 \<rparr> \<rparr>"

definition invalidate :: "(string \<Rightarrow> string) \<Rightarrow> string list \<Rightarrow> 'a CacheManager \<Rightarrow> 'a CacheManager" where
  "invalidate H paths m =
     fold (\<lambda>path m.
             let k = getCacheKey H path;
                 m1 = (if l1Cache m k \<noteq> None
                       then m\<lparr> l1Cache := (l1Cache m)(k := None),
                               l1Order := filter (\<lambda>k'. k' \<noteq> k) (l1Order m) \<rparr>
                       else m)
             in m1\<lparr> workspaceState := (workspaceState m1)(k := None) \<rparr>)
          paths m"

definition getStats :: "'a CacheManager \<Rightarrow> CacheStatistics" where
  "getStats m = (stats m)\<lparr> sizeBytes := l1SizeBytes m \<rparr>"

text \<open>
  What holds of the first tier between calls as long as keys are set once: the order list
  has no duplicates and lists exactly the stored keys, the byte count is the sum of the
  stored entries' estimates, and a stored entry is also the persistent tier's entry.
\<close>

definition l1_consistent :: "('a CacheEntry \<Rightarrow> nat) \<Rightarrow> 'a CacheManager \<Rightarrow> bool" where
  "l1_consistent est m \<longleftrightarrow>
     distinct (l1Order m) \<and> dom (l1Cache m) = set (l1Order m)
     \<and> l1SizeBytes m = (\<Sum>k\<leftarrow>l1Order m. int (est (the (l1Cache m k))))
     \<and> (\<forall>k e. l1Cache m k = Some e \<longrightarrow> workspaceState m k = Some e)"

text \<open>The estimated sizes of the entries of \<open>ks\<close>, oldest first.\<close>

definition sizes :: "('a CacheEntry \<Rightarrow> nat) \<Rightarrow> 'a CacheManager \<Rightarrow> string list \<Rightarrow> int list" where
  "sizes est m ks = map (\<lambda>k. int (est (the (l1Cache m k)))) ks"

text \<open>
  A sequence of calls on one manager: a \<^verbatim>\<open>set\<close> (with the time, the path, the payload and
  the file's content) or a \<^verbatim>\<open>get\<close> (with the files on disk at that moment and the path).
  \<open>sets_fresh\<close> holds of a sequence when every \<^verbatim>\<open>set\<close> in it finds its key absent from
  the order list.
\<close>

datatype 'a CacheCall = CallSet nat string 'a string | CallGet "string \<rightharpoonup> string" string

fun applyCall ::
  "(string \<Rightarrow> string) \<Rightarrow> ('a CacheEntry \<Rightarrow> nat) \<Rightarrow> 'a CacheCall \<Rightarrow> 'a CacheManager \<Rightarrow> 'a CacheManager" where
  "applyCall H est (CallSet now path d content) m = cacheSet H est now path d content m"
| "applyCall H est (CallGet fs path) m = snd (get H est fs path m)"

fun sets_fresh ::
  "(string \<Rightarrow> string) \<Rightarrow> ('a CacheEntry \<Rightarrow> nat) \<Rightarrow> 'a CacheCall list \<Rightarrow> 'a CacheManager \<Rightarrow> bool" where
  "sets_fresh H est [] m = True"
| "sets_fresh H est (c # cs) m =
     ((case c of CallSet now path d content \<Rightarrow> getCacheKey H path \<notin> set (l1Order m)
               | CallGet fs path \<Rightarrow> True)
      \<and> sets_fresh H est cs (applyCall H est c m))"

section \<open>Metrics collector (src/analysis/metricsCollector.ts)\<close>

record TraversalState =
  cyclomaticComplexity :: int
  cognitiveComplexity :: int
  currentNestingDepth :: int
  maxNestingDepth :: int
  cognitiveNestingLevel :: int
  returnCount :: int
  throwCount :: int
  currentCallbackDepth :: int
  maxCallbackDepth :: int
  maxPromiseChainLength :: int
  insideNestedFunction :: bool

text \<open>
  \<^verbatim>\<open>NodeMetrics\<close>, the fields that \<^verbatim>\<open>visitNode\<close> computes.  The promise-chain length
  (a second traversal) and the member counts of classes are left out: no property below
  reads them.
\<close>

record NodeMetrics =
  m_cyclomaticComplexity :: int
  m_cognitiveComplexity :: int
  m_maxNestingDepth :: int
  m_returnCount :: int
  m_throwCount :: int
  m_callbackDepth :: int

text \<open>
  \<^verbatim>\<open>isCallbackFunction\<close> reads \<^verbatim>\<open>node.parent\<close> and \<^verbatim>\<open>node.parent.parent\<close>; the traversal
  passes both along.
\<close>

definition isCallbackFunction :: "Node option \<Rightarrow> Node option \<Rightarrow> Node \<Rightarrow> bool" where
  "isCallbackFunction parent grand node =
     (if nkind node \<noteq> FunctionExpression \<and> nkind node \<noteq> ArrowFunction then False
      else case parent of
             None \<Rightarrow> False
           | Some p \<Rightarrow>
               if nkind p = CallExpression then nrole node = RoleArgument
               else (case grand of
                       None \<Rightarrow> False
                     | Some g \<Rightarrow> if nkind g = CallExpression then nrole p = RoleArgument else False))"

definition isLogicalOperator :: "SyntaxKind option \<Rightarrow> bool" where
  "isLogicalOperator op \<longleftrightarrow>
     op = Some AmpersandAmpersandToken \<or> op = Some BarBarToken \<or> op = Some QuestionQuestionToken"

text \<open>
  \<^verbatim>\<open>visitNode\<close> in three parts: what it does to the state before it visits the children
  (\<open>enterNode\<close>), the visit of the children, and what it restores afterwards
  (\<open>leaveNode\<close>).  A nested function that is not a callback takes the short path
  (\<open>enterNested\<close>, \<open>leaveNested\<close>).
\<close>

definition enterCallback :: "bool \<Rightarrow> TraversalState \<Rightarrow> TraversalState" where
  "enterCallback isCallback state =
     (if isCallback
      then state\<lparr> currentCallbackDepth := currentCallbackDepth state + 1,
                  maxCallbackDepth :=
                    max (maxCallbackDepth state) (currentCallbackDepth state + 1) \<rparr>
      else state)"

definition isNestedFunction :: "Node \<Rightarrow> bool \<Rightarrow> bool" where
  "isNestedFunction node isTopLevel \<longleftrightarrow>
     \<not> isTopLevel \<and> (nkind node = FunctionDeclaration \<or> nkind node = FunctionExpression
                      \<or> nkind node = ArrowFunction)"

definition enterNested :: "TraversalState \<Rightarrow> TraversalState" where
  "enterNested state =
     state\<lparr> insideNestedFunction := True,
            cognitiveNestingLevel := cognitiveNestingLevel state + 1 \<rparr>"

definition leaveNested :: "bool \<Rightarrow> TraversalState \<Rightarrow> TraversalState" where
  "leaveNested savedInsideNested state =
     state\<lparr> insideNestedFunction := savedInsideNested,
            cognitiveNestingLevel := cognitiveNestingLevel state - 1 \<rparr>"

definition increasedCognitiveNesting :: "Node \<Rightarrow> bool" where
  "increasedCognitiveNesting node \<longleftrightarrow>
     nkind node \<in> {IfStatement, ForStatement, ForInStatement, ForOfStatement,
                    WhileStatement, DoStatement, CatchClause, SwitchStatement}"

definition increasedNesting :: "Node \<Rightarrow> bool" where
  "increasedNesting node \<longleftrightarrow>
     nkind node \<in> {IfStatement, ForStatement, ForInStatement, ForOfStatement,
                    WhileStatement, DoStatement, TryStatement, SwitchStatement,
                    ArrowFunction, FunctionExpression}"

definition enterNode :: "Node option \<Rightarrow> Node \<Rightarrow> TraversalState \<Rightarrow> TraversalState" where
  "enterNode parent node state1 =
     (let k = nkind node; op = noperator node;
          state2 =
            (if k \<in> {IfStatement, ForStatement, ForInStatement, ForOfStatement,
                      WhileStatement, DoStatement, CaseClause, CatchClause,
                      ConditionalExpression}
                \<or> (k = BinaryExpression \<and> isLogicalOperator op)
             then state1\<lparr> cyclomaticComplexity := cyclomaticComplexity state1 + 1 \<rparr>
             else state1);
          elseIf = (case parent of
                      Some p \<Rightarrow> nkind p = IfStatement \<and> nrole node = RoleElseStatement
                    | None \<Rightarrow> False);
          sameOperatorAbove = (case parent of
                      Some p \<Rightarrow> nkind p = BinaryExpression \<and> noperator p = op
                    | None \<Rightarrow> False);
          state3 =
            (if k = IfStatement then
               (if elseIf
                then state2\<lparr> cognitiveComplexity := cognitiveComplexity state2 + 1 \<rparr>
                else state2\<lparr> cognitiveComplexity :=
                       cognitiveComplexity state2 + (1 + cognitiveNestingLevel state2) \<rparr>)
             else if k \<in> {ForStatement, ForInStatement, ForOfStatement, WhileStatement,
                           DoStatement, CatchClause, SwitchStatement, ConditionalExpression}
             then state2\<lparr> cognitiveComplexity :=
                    cognitiveComplexity state2 + (1 + cognitiveNestingLevel state2) \<rparr>
             else if k = BinaryExpression \<and> isLogicalOperator op \<and> \<not> sameOperatorAbove
             then state2\<lparr> cognitiveComplexity := cognitiveComplexity state2 + 1 \<rparr>
             else state2);
          state4 =
            (if increasedNesting node
             then state3\<lparr> currentNestingDepth := currentNestingDepth state3 + 1,
                          maxNestingDepth :=
                            max (maxNestingDepth state3) (currentNestingDepth state3 + 1) \<rparr>
             else state3);
          state5 =
            (if \<not> insideNestedFunction state4 then
               (if k = ReturnStatement
                then state4\<lparr> returnCount := returnCount state4 + 1 \<rparr>
                else if k = ThrowStatement
                then state4\<lparr> throwCount := throwCount state4 + 1 \<rparr>
                else state4)
             else state4)
      in if increasedCognitiveNesting node
         then state5\<lparr> cognitiveNestingLevel := cognitiveNestingLevel state5 + 1 \<rparr>
         else state5)"

definition leaveNode :: "bool \<Rightarrow> Node \<Rightarrow> TraversalState \<Rightarrow> TraversalState" where
  "leaveNode isCallback node state7 =
     (let state8 =
            (if increasedNesting node
             then state7\<lparr> currentNestingDepth := currentNestingDepth state7 - 1 \<rparr>
             else state7);
          state9 =
            (if increasedCognitiveNesting node
             then state8\<lparr> cognitiveNestingLevel := cognitiveNestingLevel state8 - 1 \<rparr>
             else state8)
      in if isCallback
         then state9\<lparr> currentCallbackDepth := currentCallbackDepth state9 - 1 \<rparr>
         else state9)"

fun visitNode :: "Node option \<Rightarrow> Node option \<Rightarrow> Node \<Rightarrow> TraversalState \<Rightarrow> bool \<Rightarrow> TraversalState" where
  "visitNode parent grand (Node k r nm ms op sp en cs) state isTopLevel =
     (if isNestedFunction (Node k r nm ms op sp en cs) isTopLevel
         \<and> \<not> isCallbackFunction parent grand (Node k r nm ms op sp en cs)
      then
        leaveNested (insideNestedFunction state)
          (fold (\<lambda>child st. visitNode (Some (Node k r nm ms op sp en cs)) parent child st False)
             cs (enterNested state))
      else
        leaveNode (isCallbackFunction parent grand (Node k r nm ms op sp en cs))
          (Node k r nm ms op sp en cs)
          (fold (\<lambda>child st. visitNode (Some (Node k r nm ms op sp en cs)) parent child st False)
             cs
             (enterNode parent (Node k r nm ms op sp en cs)
                (enterCallback (isCallbackFunction parent grand (Node k r nm ms op sp en cs))
                   state))))"

definition collectNodeMetrics :: "Node option \<Rightarrow> Node option \<Rightarrow> Node \<Rightarrow> NodeMetrics" where
  "collectNodeMetrics parent grand node =
     (let state = visitNode parent grand node
            \<lparr> cyclomaticComplexity = 1, cognitiveComplexity = 0, currentNestingDepth = 0,
              maxNestingDepth = 0, cognitiveNestingLevel = 0, returnCount = 0, throwCount = 0,
              currentCallbackDepth = 0, maxCallbackDepth = 0, maxPromiseChainLength = 0,
              insideNestedFunction = False \<rparr> False
      in \<lparr> m_cyclomaticComplexity = cyclomaticComplexity state,
           m_cognitiveComplexity = cognitiveComplexity state,
           m_maxNestingDepth = maxNestingDepth state,
           m_returnCount = returnCount state,
           m_throwCount = throwCount state,
           m_callbackDepth = maxCallbackDepth state \<rparr>)"

definition collectClassMetrics :: "Node \<Rightarrow> NodeMetrics" where
  "collectClassMetrics node =
     fold (\<lambda>member acc.
             if nkind member = MethodDeclaration \<or> nkind member = Constructor then
               (let mm = collectNodeMetrics (Some node) None member
                in \<lparr> m_cyclomaticComplexity = m_cyclomaticComplexity acc + m_cyclomaticComplexity mm,
                     m_cognitiveComplexity = m_cognitiveComplexity acc + m_cognitiveComplexity mm,
                     m_maxNestingDepth = max (m_maxNestingDepth acc) (m_maxNestingDepth mm),
                     m_returnCount = m_returnCount acc + m_returnCount mm,
                     m_throwCount = m_throwCount acc + m_throwCount mm,
                     m_callbackDepth = max (m_callbackDepth acc) (m_callbackDepth mm) \<rparr>)
             else if nkind member = GetAccessor \<or> nkind member = SetAccessor then
               (let am = collectNodeMetrics (Some node) None member
                in acc\<lparr> m_cyclomaticComplexity := m_cyclomaticComplexity acc + m_cyclomaticComplexity am,
                        m_cognitiveComplexity := m_cognitiveComplexity acc + m_cognitiveComplexity am,
                        m_returnCount := m_returnCount acc + m_returnCount am,
                        m_callbackDepth := max (m_callbackDepth acc) (m_callbackDepth am) \<rparr>)
             else acc)
          (filter (\<lambda>c. nkind c \<in> {MethodDeclaration, Constructor, PropertyDeclaration,
                                   GetAccessor, SetAccessor}) (nchildren node))
          \<lparr> m_cyclomaticComplexity = 1, m_cognitiveComplexity = 0, m_maxNestingDepth = 0,
            m_returnCount = 0, m_throwCount = 0, m_callbackDepth = 0 \<rparr>"

section \<open>Lightweight parser (src/analysis/lightweightParser.ts)\<close>

datatype JsError = TypeError | ReadError

text \<open>
  \<^verbatim>\<open>LightweightSymbol\<close>: the fields every branch of \<^verbatim>\<open>nodeToSymbol\<close> sets, and
  \<^verbatim>\<open>complexity\<close>, which only function-like symbols, variables and classes have.  The other
  optional metric fields are copies of the same \<^verbatim>\<open>NodeMetrics\<close> record or counts that no
  property below reads.  \<open>symName\<close>, \<open>symKind\<close>, \<open>symFilePath\<close> and \<open>symEndLine\<close> are the
  fields \<^verbatim>\<open>name\<close>, \<^verbatim>\<open>kind\<close>, \<^verbatim>\<open>filePath\<close> and \<^verbatim>\<open>endLine\<close>.
\<close>

record LightweightSymbol =
  symName :: string
  symKind :: string
  symFilePath :: string
  line :: int
  symEndLine :: int
  column :: int
  exported :: bool
  isDefault :: bool
  linesOfCode :: int
  complexity :: "int option"

text \<open>
  \<^verbatim>\<open>c === c.toUpperCase()\<close> for one code unit below 256: false exactly for the letters
  that have an upper-case form (a to z, the micro sign, sharp s, and the accented
  lower-case letters).
\<close>

definition upper_fixed :: "char \<Rightarrow> bool" where
  "upper_fixed c \<longleftrightarrow>
     (let n = (of_char c :: nat)
      in \<not> ((97 \<le> n \<and> n \<le> 122) \<or> n = 181 \<or> (223 \<le> n \<and> n \<le> 246) \<or> (248 \<le> n \<and> n \<le> 255)))"

text \<open>\<^verbatim>\<open>/^[A-Z]/\<close> on the first code unit.\<close>

definition is_AZ :: "char \<Rightarrow> bool" where
  "is_AZ c \<longleftrightarrow> (let n = (of_char c :: nat) in 65 \<le> n \<and> n \<le> 90)"

text \<open>
  \<^verbatim>\<open>detectReactHookOrComponent\<close>.  On the empty name in a TSX file \<^verbatim>\<open>name[0]\<close> is
  \<^verbatim>\<open>undefined\<close> and \<^verbatim>\<open>name[0].toUpperCase()\<close> throws.
\<close>

definition detectReactHookOrComponent :: "string \<Rightarrow> bool \<Rightarrow> JsError + string" where
  "detectReactHookOrComponent n isTsx =
     (if take 3 n = ''use'' \<and> length n > 3 \<and> upper_fixed (n ! 3) then Inr ''hook''
      else if isTsx then
        (case n of
           [] \<Rightarrow> Inl TypeError
         | c # _ \<Rightarrow> if upper_fixed c \<and> is_AZ c then Inr ''component'' else Inr ''function'')
      else Inr ''function'')"

definition hasExportModifier :: "Node \<Rightarrow> bool" where
  "hasExportModifier node \<longleftrightarrow> ExportKeyword \<in> set (nmodifiers node)"

definition hasDefaultModifier :: "Node \<Rightarrow> bool" where
  "hasDefaultModifier node \<longleftrightarrow> DefaultKeyword \<in> set (nmodifiers node)"

text \<open>\<^verbatim>\<open>node.declarationList.declarations\<close> of a variable statement.\<close>

definition declarations :: "Node \<Rightarrow> Node list" where
  "declarations node =
     concat (map (\<lambda>l. filter (\<lambda>d. nkind d = VariableDeclaration) (nchildren l))
               (filter (\<lambda>l. nkind l = VariableDeclarationList) (nchildren node)))"

definition mkSymbol ::
  "string \<Rightarrow> Node \<Rightarrow> string \<Rightarrow> string \<Rightarrow> bool \<Rightarrow> int option \<Rightarrow> LightweightSymbol" where
  "mkSymbol path node n k dflt cx =
     \<lparr> symName = n, symKind = k, symFilePath = path,
       line = fst (nstart node) + 1, symEndLine = nend node + 1,
       column = snd (nstart node) + 1,
       exported = hasExportModifier node, isDefault = dflt,
       linesOfCode = nend node - fst (nstart node), complexity = cx \<rparr>"

text \<open>
  The branch of \<^verbatim>\<open>nodeToSymbol\<close> for a variable statement: the first declaration whose
  name is an identifier gives the symbol.
\<close>

definition variableSymbol :: "string \<Rightarrow> bool \<Rightarrow> Node \<Rightarrow> JsError + LightweightSymbol option" where
  "variableSymbol path isTsx node =
     (case find (\<lambda>decl. case nname decl of IdentifierName _ \<Rightarrow> True | _ \<Rightarrow> False)
             (declarations node) of
        None \<Rightarrow> Inr None
      | Some decl \<Rightarrow>
          (case nname decl of
             IdentifierName n \<Rightarrow>
               (case find (\<lambda>c. nrole c = RoleInitializer) (nchildren decl) of
                  Some init \<Rightarrow>
                    if nkind init = ArrowFunction \<or> nkind init = FunctionExpression then
                      (case detectReactHookOrComponent n isTsx of
                         Inl e \<Rightarrow> Inl e
                       | Inr k \<Rightarrow>
                           Inr (Some (mkSymbol path node n k (hasDefaultModifier node)
                             (Some (m_cyclomaticComplexity
                                (collectNodeMetrics (Some decl) None init))))))
                    else Inr (Some (mkSymbol path node n ''variable''
                                      (hasDefaultModifier node) (Some 1)))
                | None \<Rightarrow> Inr (Some (mkSymbol path node n ''variable''
                                      (hasDefaultModifier node) (Some 1))))
           | _ \<Rightarrow> Inr None))"

text \<open>The name of a declaration when it is an identifier.\<close>

definition identifierText :: "Node \<Rightarrow> string option" where
  "identifierText node = (case nname node of IdentifierName n \<Rightarrow> Some n | _ \<Rightarrow> None)"

text \<open>
  \<^verbatim>\<open>nodeToSymbol\<close>.  A variable statement without an identifier-named declaration
  falls through to the later tests, none of which holds of a variable statement.
\<close>

definition nodeToSymbol :: "string \<Rightarrow> bool \<Rightarrow> Node \<Rightarrow> JsError + LightweightSymbol option" where
  "nodeToSymbol path isTsx node =
     (if nkind node \<in> {ImportDeclaration, ExportDeclaration, ExportAssignment,
                        ExpressionStatement, EmptyStatement}
      then Inr None
      else if nkind node = FunctionDeclaration \<and> identifierText node \<noteq> None then
        (case detectReactHookOrComponent (the (identifierText node)) isTsx of
           Inl e \<Rightarrow> Inl e
         | Inr k \<Rightarrow>
             Inr (Some (mkSymbol path node (the (identifierText node)) k (hasDefaultModifier node)
                    (Some (m_cyclomaticComplexity (collectNodeMetrics None None node))))))
      else if nkind node = VariableStatement then variableSymbol path isTsx node
      else if nkind node = ClassDeclaration \<and> identifierText node \<noteq> None then
        Inr (Some (mkSymbol path node (the (identifierText node)) ''class''
               (hasDefaultModifier node)
               (Some (m_cyclomaticComplexity (collectClassMetrics node)))))
      else if nkind node = InterfaceDeclaration \<and> identifierText node \<noteq> None then
        Inr (Some (mkSymbol path node (the (identifierText node)) ''interface'' False None))
      else if nkind node = TypeAliasDeclaration \<and> identifierText node \<noteq> None then
        Inr (Some (mkSymbol path node (the (identifierText node)) ''type'' False None))
      else if nkind node = EnumDeclaration \<and> identifierText node \<noteq> None then
        Inr (Some (mkSymbol path node (the (identifierText node)) ''enum'' False None))
      else if nkind node = ModuleDeclaration \<and> identifierText node \<noteq> None then
        Inr (Some (mkSymbol path node (the (identifierText node)) ''namespace'' False None))
      else Inr None)"

text \<open>The first exception ends the traversal.\<close>

fun collect :: "(JsError + 'a list) list \<Rightarrow> JsError + 'a list" where
  "collect [] = Inr []"
| "collect (Inl e # rs) = Inl e"
| "collect (Inr xs # rs) = (case collect rs of Inl e \<Rightarrow> Inl e | Inr ys \<Rightarrow> Inr (xs @ ys))"

fun visit :: "string \<Rightarrow> bool \<Rightarrow> Node \<Rightarrow> nat \<Rightarrow> JsError + LightweightSymbol list" where
  "visit path isTsx (Node k r nm ms op sp en cs) depth =
     (if depth > 1 then Inr []
      else
        (case nodeToSymbol path isTsx (Node k r nm ms op sp en cs) of
           Inl e \<Rightarrow> Inl e
         | Inr symbol \<Rightarrow>
             collect (Inr (case symbol of None \<Rightarrow> [] | Some s \<Rightarrow> [s])
                      # (if k = ModuleDeclaration \<or> k = ClassDeclaration
                         then map (\<lambda>child. visit path isTsx child (depth + 1)) cs
                         else []))))"

text \<open>
  \<^verbatim>\<open>extractSymbols\<close>: \<^verbatim>\<open>ts.forEachChild(sourceFile, ...)\<close> passes the statements and then
  the end-of-file token.
\<close>

definition extractSymbols :: "Node list \<Rightarrow> string \<Rightarrow> bool \<Rightarrow> JsError + LightweightSymbol list" where
  "extractSymbols statements path isTsx =
     collect (map (\<lambda>node. visit path isTsx node 0)
                (statements @ [Node EndOfFileToken RoleOther NoName [] None (0, 0) 0 []]))"

record LightweightParser =
  cacheManager :: "LightweightSymbol list CacheManager"
  parserStats :: CacheStatistics

definition endsWith :: "string \<Rightarrow> string \<Rightarrow> bool" where
  "endsWith s suffix \<longleftrightarrow> length suffix \<le> length s \<and> drop (length s - length suffix) s = suffix"

text \<open>
  \<^verbatim>\<open>parseFile\<close>.  The comment density (a floating-point ratio stored in a field left out
  above) is not computed.
\<close>

definition parseFile ::
  "(string \<Rightarrow> string) \<Rightarrow> (LightweightSymbol list CacheEntry \<Rightarrow> nat) \<Rightarrow> nat
     \<Rightarrow> (string \<rightharpoonup> string) \<Rightarrow> (string \<Rightarrow> string \<Rightarrow> Node list) \<Rightarrow> string \<Rightarrow> LightweightParser
     \<Rightarrow> (JsError + LightweightSymbol list) \<times> LightweightParser" where
  "parseFile H est now fs ts path lp =
     (case get H est fs path (cacheManager lp) of
        (Some cached, cm) \<Rightarrow>
          (Inr cached,
           lp\<lparr> cacheManager := cm,
                parserStats := (parserStats lp)\<lparr> hits := hits (parserStats lp) + 1 \<rparr> \<rparr>)
      | (None, cm) \<Rightarrow>
          (let lp1 = lp\<lparr> cacheManager := cm,
                          parserStats := (parserStats lp)\<lparr> misses := misses (parserStats lp) + 1 \<rparr> \<rparr>
           in case fs path of
                None \<Rightarrow> (Inl ReadError, lp1)
              | Some content \<Rightarrow>
                  (case extractSymbols (ts path content) path (endsWith path ''.tsx'') of
                     Inl e \<Rightarrow> (Inl e, lp1)
                   | Inr syms \<Rightarrow>
                       (Inr syms,
                        lp1\<lparr> cacheManager := cacheSet H est now path syms content cm \<rparr>))))"

section \<open>Dependency analyzer (DependencyAnalyzer)\<close>

text \<open>
  Of a \<^verbatim>\<open>ParsedFile\<close> the analyzer reads the path and the \<^verbatim>\<open>modulePath\<close> of each import.
\<close>

record ParsedFile =
  pf_filePath :: string
  pf_imports :: "string list"

text \<open>
  Node's \<^verbatim>\<open>path\<close> module, from outside the repository: \<^verbatim>\<open>dirname\<close>, \<^verbatim>\<open>resolve\<close>,
  \<^verbatim>\<open>join\<close> and \<^verbatim>\<open>normalize\<close>.
\<close>

record PathModule =
  pm_dirname :: "string \<Rightarrow> string"
  pm_resolve :: "string \<Rightarrow> string \<Rightarrow> string"
  pm_join :: "string \<Rightarrow> string \<Rightarrow> string"
  pm_normalize :: "string \<Rightarrow> string"

text \<open>\<^verbatim>\<open>toLowerCase\<close> on one code unit below 256.\<close>

definition lower_char :: "char \<Rightarrow> char" where
  "lower_char c =
     (let n = (of_char c :: nat)
      in if (65 \<le> n \<and> n \<le> 90) \<or> (192 \<le> n \<and> n \<le> 214) \<or> (216 \<le> n \<and> n \<le> 222)
         then char_of (n + 32) else c)"

definition normalizePath :: "PathModule \<Rightarrow> string \<Rightarrow> string" where
  "normalizePath pm p =
     map (\<lambda>c. if c = CHR 0x5C then CHR ''/'' else c) (map lower_char (pm_normalize pm p))"

definition isKnownFile :: "string \<Rightarrow> bool" where
  "isKnownFile p \<longleftrightarrow>
     endsWith p ''.ts'' \<or> endsWith p ''.tsx'' \<or> endsWith p ''.js'' \<or> endsWith p ''.jsx''"

definition resolveImportPath :: "PathModule \<Rightarrow> string \<Rightarrow> string \<Rightarrow> string option" where
  "resolveImportPath pm fromFile importPath =
     (if take 1 importPath \<noteq> ''.'' \<and> take 1 importPath \<noteq> ''/'' then None
      else
        (let fromDir = pm_dirname pm fromFile;
             resolved = pm_resolve pm fromDir importPath
         in case find isKnownFile
                   (map (\<lambda>ext. resolved @ ext) [''.ts'', ''.tsx'', ''.js'', ''.jsx'', '''']) of
              Some withExt \<Rightarrow> Some (normalizePath pm withExt)
            | None \<Rightarrow>
                (case find isKnownFile
                        (map (\<lambda>ext. pm_join pm resolved (''index'' @ ext))
                           [''.ts'', ''.tsx'', ''.js'', ''.jsx'']) of
                   Some indexPath \<Rightarrow> Some (normalizePath pm indexPath)
                 | None \<Rightarrow> None)))"

text \<open>
  A JavaScript \<^verbatim>\<open>Map\<close> is an association list in insertion order: \<^verbatim>\<open>set\<close> replaces the
  value of a key in place or appends the key.  A \<^verbatim>\<open>Set\<close> that is iterated is a list
  without duplicates.
\<close>

fun map_set :: "'k \<Rightarrow> 'v \<Rightarrow> ('k \<times> 'v) list \<Rightarrow> ('k \<times> 'v) list" where
  "map_set k v [] = [(k, v)]"
| "map_set k v ((k', v') # m) = (if k' = k then (k, v) # m else (k', v') # map_set k v m)"

definition set_add :: "'a \<Rightarrow> 'a list \<Rightarrow> 'a list" where
  "set_add x xs = (if x \<in> set xs then xs else xs @ [x])"

text \<open>Mutating the object stored under a key.\<close>

definition map_upd :: "'k \<Rightarrow> ('v \<Rightarrow> 'v) \<Rightarrow> ('k \<times> 'v) list \<Rightarrow> ('k \<times> 'v) list" where
  "map_upd k f m = map (\<lambda>(k', v). if k' = k then (k', f v) else (k', v)) m"

definition buildDependencyGraph :: "PathModule \<Rightarrow> ParsedFile list \<Rightarrow> (string \<times> string list) list" where
  "buildDependencyGraph pm parsedFiles =
     (let fileSet = set (map (\<lambda>f. normalizePath pm (pf_filePath f)) parsedFiles)
      in fold (\<lambda>file graph.
                 map_set (normalizePath pm (pf_filePath file))
                   (fold (\<lambda>imp deps.
                            case resolveImportPath pm (pf_filePath file) imp of
                              Some resolvedPath \<Rightarrow>
                                if resolvedPath \<noteq> [] \<and> resolvedPath \<in> fileSet
                                then set_add resolvedPath deps else deps
                            | None \<Rightarrow> deps)
                      (pf_imports file) [])
                   graph)
           parsedFiles [])"

record FileCouplingMetrics =
  cm_filePath :: string
  afferentCoupling :: nat
  efferentCoupling :: nat
  instability :: real
  dependsOn :: "string list"
  dependedOnBy :: "string list"

definition calculateCouplingMetrics ::
  "PathModule \<Rightarrow> (string \<times> string list) list \<Rightarrow> ParsedFile list
     \<Rightarrow> (string \<times> FileCouplingMetrics) list" where
  "calculateCouplingMetrics pm dependencyGraph parsedFiles =
     (let metrics0 =
            fold (\<lambda>file metrics.
                    map_set (normalizePath pm (pf_filePath file))
                      \<lparr> cm_filePath = pf_filePath file, afferentCoupling = 0,
                        efferentCoupling = 0, instability = 0, dependsOn = [],
                        dependedOnBy = [] \<rparr> metrics)
              parsedFiles [];
          metrics1 =
            fold (\<lambda>(path, deps) metrics.
                    case map_of metrics path of
                      None \<Rightarrow> metrics
                    | Some _ \<Rightarrow>
                        fold (\<lambda>dep metrics'.
                                case map_of metrics' dep of
                                  None \<Rightarrow> metrics'
                                | Some _ \<Rightarrow>
                                    map_upd dep
                                      (\<lambda>dm. dm\<lparr> afferentCoupling := afferentCoupling dm + 1,
                                                dependedOnBy := dependedOnBy dm @ [path] \<rparr>)
                                      metrics')
                          deps
                          (map_upd path
                             (\<lambda>fm. fm\<lparr> efferentCoupling := length deps, dependsOn := deps \<rparr>)
                             metrics))
              dependencyGraph metrics0
      in map (\<lambda>(path, fm).
                (path,
                 fm\<lparr> instability :=
                       (if afferentCoupling fm + efferentCoupling fm > 0
                        then real (efferentCoupling fm)
                               / real (afferentCoupling fm + efferentCoupling fm)
                        else 0) \<rparr>))
           metrics1)"

text \<open>
  The loops of \<^verbatim>\<open>calculateCouplingMetrics\<close> by name: the initialisation, the second pass
  over one graph entry and its inner loop over the entry's dependencies.  They restate
  the definition above piece by piece (\<open>calculateCouplingMetrics_passes\<close> below).
\<close>

definition markDependents ::
  "string \<Rightarrow> string list \<Rightarrow> (string \<times> FileCouplingMetrics) list
     \<Rightarrow> (string \<times> FileCouplingMetrics) list" where
  "markDependents q ds m =
     fold (\<lambda>dep metrics'.
             case map_of metrics' dep of
               None \<Rightarrow> metrics'
             | Some _ \<Rightarrow>
                 map_upd dep
                   (\<lambda>dm. dm\<lparr> afferentCoupling := afferentCoupling dm + 1,
                             dependedOnBy := dependedOnBy dm @ [q] \<rparr>)
                   metrics') ds m"

definition couplingPass ::
  "string \<times> string list \<Rightarrow> (string \<times> FileCouplingMetrics) list
     \<Rightarrow> (string \<times> FileCouplingMetrics) list" where
  "couplingPass entry m =
     (case map_of m (fst entry) of
        None \<Rightarrow> m
      | Some _ \<Rightarrow>
          markDependents (fst entry) (snd entry)
            (map_upd (fst entry)
               (\<lambda>fm. fm\<lparr> efferentCoupling := length (snd entry), dependsOn := snd entry \<rparr>) m))"

definition initialMetrics :: "PathModule \<Rightarrow> ParsedFile list \<Rightarrow> (string \<times> FileCouplingMetrics) list" where
  "initialMetrics pm files =
     fold (\<lambda>file metrics.
             map_set (normalizePath pm (pf_filePath file))
               \<lparr> cm_filePath = pf_filePath file, afferentCoupling = 0,
                 efferentCoupling = 0, instability = 0, dependsOn = [],
                 dependedOnBy = [] \<rparr> metrics)
       files []"

text \<open>\<^verbatim>\<open>CircularDependency\<close>; \<open>cycleLength\<close> is its field \<^verbatim>\<open>length\<close>.\<close>

record CircularDependency =
  cycle :: "string list"
  cycleLength :: nat

text \<open>What the closure \<^verbatim>\<open>dfs\<close> shares with its caller; \<open>dfsPath\<close> is \<^verbatim>\<open>path\<close>.\<close>

record DfsState =
  cycles :: "CircularDependency list"
  visited :: "string set"
  recursionStack :: "string set"
  dfsPath :: "string list"

definition isCycleAlreadyFound :: "CircularDependency list \<Rightarrow> string list \<Rightarrow> bool" where
  "isCycleAlreadyFound found newCycle \<longleftrightarrow>
     list_ex (\<lambda>existing. cycleLength existing = length newCycle
                  \<and> list_all (\<lambda>node. node \<in> set (cycle existing)) newCycle)
       found"

text \<open>The branch of \<^verbatim>\<open>dfs\<close> for a dependency that is on the recursion stack.\<close>

definition recordCycle :: "string \<Rightarrow> DfsState \<Rightarrow> DfsState" where
  "recordCycle dep s =
     (if dep \<in> set (dfsPath s) then
        (let c = dropWhile (\<lambda>x. x \<noteq> dep) (dfsPath s)
         in if \<not> isCycleAlreadyFound (cycles s) c
            then s\<lparr> cycles := cycles s @ [\<lparr> cycle = c, cycleLength = length c \<rparr>] \<rparr>
            else s)
      else s)"

text \<open>
  \<^verbatim>\<open>dfs\<close> recurses once for each node it marks visited.  The first argument bounds the
  depth of the recursion; \<open>None\<close> says the bound was too small.
\<close>

fun dfs :: "nat \<Rightarrow> (string \<times> string list) list \<Rightarrow> string \<Rightarrow> DfsState \<Rightarrow> DfsState option" where
  "dfs 0 graph node s = None"
| "dfs (Suc fuel) graph node s =
     (case fold (\<lambda>dep so.
                   case so of
                     None \<Rightarrow> None
                   | Some s' \<Rightarrow>
                       if dep \<notin> visited s' then dfs fuel graph dep s'
                       else if dep \<in> recursionStack s' then Some (recordCycle dep s')
                       else Some s')
             (case map_of graph node of Some deps \<Rightarrow> deps | None \<Rightarrow> [])
             (Some (s\<lparr> visited := insert node (visited s),
                        recursionStack := insert node (recursionStack s),
                        dfsPath := dfsPath s @ [node] \<rparr>)) of
        None \<Rightarrow> None
      | Some s2 \<Rightarrow>
          Some (s2\<lparr> dfsPath := butlast (dfsPath s2),
                    recursionStack := recursionStack s2 - {node} \<rparr>))"

definition detectCircularDependencies ::
  "nat \<Rightarrow> (string \<times> string list) list \<Rightarrow> CircularDependency list option" where
  "detectCircularDependencies fuel graph =
     map_option cycles
       (fold (\<lambda>node so.
                case so of
                  None \<Rightarrow> None
                | Some s \<Rightarrow> if node \<notin> visited s then dfs fuel graph node s else Some s)
          (map fst graph)
          (Some \<lparr> cycles = [], visited = {}, recursionStack = {}, dfsPath = [] \<rparr>))"

record DependencyAnalysisResult =
  fileMetrics :: "(string \<times> FileCouplingMetrics) list"
  circularDependencies :: "CircularDependency list"
  totalCircularDependencies :: nat

definition analyze :: "nat \<Rightarrow> PathModule \<Rightarrow> ParsedFile list \<Rightarrow> DependencyAnalysisResult option" where
  "analyze fuel pm parsedFiles =
     (let dependencyGraph = buildDependencyGraph pm parsedFiles;
          metrics = calculateCouplingMetrics pm dependencyGraph parsedFiles
      in case detectCircularDependencies fuel dependencyGraph of
           None \<Rightarrow> None
         | Some found \<Rightarrow>
             Some \<lparr> fileMetrics = metrics, circularDependencies = found,
                    totalCircularDependencies = length found \<rparr>)"

text \<open>
  An invariant of the parser's cache: \<^verbatim>\<open>extractSymbol\<close> sets
  \<^verbatim>\<open>declarationLine: startLine\<close> and \<^verbatim>\<open>adjustLineNumbers\<close> moves both or neither.
\<close>

definition declaration_first :: "ParserState \<Rightarrow> bool" where
  "declaration_first st \<longleftrightarrow>
     (\<forall>p c. st p = Some c \<longrightarrow> (\<forall>s \<in> set (symbols c). declarationLine s = startLine s))"

section \<open>Concrete inputs\<close>

text \<open>
  The examples below instantiate the two outside parameters: \<open>fx_hash\<close> stands for the
  digest (any function that tells the example contents apart does), and \<open>fx_ts\<close> returns
  the statements the TypeScript parser produces for the example contents.
\<close>

definition fx_hash :: "string \<Rightarrow> string" where
  "fx_hash s = s"

text \<open>\<^verbatim>\<open>lib.ts\<close>: a three-line function \<^verbatim>\<open>f\<close> followed by a one-line function \<^verbatim>\<open>g\<close>.\<close>

definition lib_v1 :: string where
  "lib_v1 = ''function f() {'' @ [CHR 0x0A] @ ''  return 1;'' @ [CHR 0x0A] @ ''}'' @ [CHR 0x0A]
            @ ''function g() {}''"

definition lib_v1_ast :: "Node list" where
  "lib_v1_ast =
     [Node FunctionDeclaration RoleOther (IdentifierName ''f'') [] None (0, 0) 2
        [Node Identifier RoleOther (IdentifierName ''f'') [] None (0, 9) 0 [],
         Node Block RoleOther NoName [] None (0, 13) 2
           [Node ReturnStatement RoleOther NoName [] None (1, 2) 1
              [Node NumericLiteral RoleOther NoName [] None (1, 9) 1 []]]],
      Node FunctionDeclaration RoleOther (IdentifierName ''g'') [] None (3, 0) 3
        [Node Identifier RoleOther (IdentifierName ''g'') [] None (3, 9) 3 [],
         Node Block RoleOther NoName [] None (3, 13) 3 []]]"

text \<open>The same file with a comment line added inside the body of \<^verbatim>\<open>f\<close>.\<close>

definition lib_v2 :: string where
  "lib_v2 = ''function f() {'' @ [CHR 0x0A] @ ''  // one'' @ [CHR 0x0A] @ ''  return 1;''
            @ [CHR 0x0A] @ ''}'' @ [CHR 0x0A] @ ''function g() {}''"

text \<open>
  \<^verbatim>\<open>a.ts\<close>: the constant \<^verbatim>\<open>X\<close> and the one-line function \<^verbatim>\<open>f\<close>; the same file
  with the literal in the body of \<^verbatim>\<open>f\<close> changed (the tree keeps its shape and its
  positions); and the same file with an exported async function added as a third line.
\<close>

definition a_v1 :: string where
  "a_v1 = ''export const X = 1;'' @ [CHR 0x0A] @ ''export function f(){ return 1; }''"

definition a_v2 :: string where
  "a_v2 = ''export const X = 1;'' @ [CHR 0x0A] @ ''export function f(){ return 2; }''"

definition a_v3 :: string where
  "a_v3 = ''export const X = 1;'' @ [CHR 0x0A] @ ''export function f(){ return 1; }''
          @ [CHR 0x0A] @ ''export async function g() {}''"

definition a_ast :: "Node list" where
  "a_ast =
     [Node VariableStatement RoleOther NoName [ExportKeyword] None (0, 0) 0
        [Node ExportKeyword RoleOther NoName [] None (0, 0) 0 [],
         Node VariableDeclarationList RoleOther NoName [] None (0, 7) 0
           [Node VariableDeclaration RoleOther (IdentifierName ''X'') [] None (0, 13) 0
              [Node Identifier RoleOther (IdentifierName ''X'') [] None (0, 13) 0 [],
               Node NumericLiteral RoleInitializer NoName [] None (0, 17) 0 []]]],
      Node FunctionDeclaration RoleOther (IdentifierName ''f'') [ExportKeyword] None (1, 0) 1
        [Node ExportKeyword RoleOther NoName [] None (1, 0) 1 [],
         Node Identifier RoleOther (IdentifierName ''f'') [] None (1, 16) 1 [],
         Node Block RoleOther NoName [] None (1, 19) 1
           [Node ReturnStatement RoleOther NoName [] None (1, 21) 1
              [Node NumericLiteral RoleOther NoName [] None (1, 28) 1 []]]]]"

definition a_ast3 :: "Node list" where
  "a_ast3 = a_ast @
     [Node FunctionDeclaration RoleOther (IdentifierName ''g'') [ExportKeyword, AsyncKeyword] None
        (2, 0) 2
        [Node ExportKeyword RoleOther NoName [] None (2, 0) 2 [],
         Node AsyncKeyword RoleOther NoName [] None (2, 7) 2 [],
         Node Identifier RoleOther (IdentifierName ''g'') [] None (2, 22) 2 [],
         Node Block RoleOther NoName [] None (2, 26) 2 []]]"

text \<open>\<^verbatim>\<open>hooks.ts\<close>: the function \<^verbatim>\<open>use_state\<close>.\<close>

definition hooks_src :: string where
  "hooks_src = ''function use_state() {}''"

definition hooks_ast :: "Node list" where
  "hooks_ast =
     [Node FunctionDeclaration RoleOther (IdentifierName ''use_state'') [] None (0, 0) 0
        [Node Identifier RoleOther (IdentifierName ''use_state'') [] None (0, 9) 0 [],
         Node Block RoleOther NoName [] None (0, 21) 0 []]]"

definition fx_ts :: "string \<Rightarrow> string \<Rightarrow> Node list" where
  "fx_ts path content =
     (if content = lib_v1 then lib_v1_ast
      else if content = a_v1 \<or> content = a_v2 then a_ast
      else if content = a_v3 then a_ast3
      else if content = hooks_src then hooks_ast
      else [])"

definition fx_est_syms :: "LightweightSymbol list CacheEntry \<Rightarrow> nat" where
  "fx_est_syms e = 1024"

text \<open>A lightweight parser with an empty cache of 100 megabytes.\<close>

definition lp0 :: LightweightParser where
  "lp0 = \<lparr> cacheManager = newCacheManager Map.empty 100,
           parserStats = \<lparr> hits = 0, misses = 0, sizeBytes = 0, maxSize = 0, evictions = 0 \<rparr> \<rparr>"

text \<open>The incremental parser after the first parse of \<^verbatim>\<open>a.ts\<close>, and the two edits.\<close>

definition a_state :: ParserState where
  "a_state = snd (parseIncremental fx_hash fx_ts Map.empty ''a.ts'' a_v1 None)"

definition a_edit_literal :: EditInfo where
  "a_edit_literal = \<lparr> editStart = 2, editEnd = 2, linesDelta = 0 \<rparr>"

definition a_edit_append :: EditInfo where
  "a_edit_append = \<lparr> editStart = 3, editEnd = 3, linesDelta = 1 \<rparr>"


definition lib_state :: ParserState where
  "lib_state = snd (parseIncremental fx_hash fx_ts Map.empty ''lib.ts'' lib_v1 None)"

definition lib_edit :: EditInfo where
  "lib_edit = \<lparr> editStart = 2, editEnd = 2, linesDelta = 1 \<rparr>"

definition lib_f :: CachedSymbol where
  "lib_f = \<lparr> name = ''f'', kind = ''function'', startLine = 1, endLine = 3, declarationLine = 1,
             contentHash = ''function f() {'' @ [CHR 0x0A] @ ''  return 1;'' @ [CHR 0x0A] @ ''}'' \<rparr>"

definition lib_g :: CachedSymbol where
  "lib_g = \<lparr> name = ''g'', kind = ''function'', startLine = 4, endLine = 4, declarationLine = 4,
             contentHash = ''function g() {}'' \<rparr>"

text \<open>
  A cache of one megabyte whose payloads are numbers; \<open>fx_est\<close> takes the payload as the
  entry's estimated size.
\<close>

definition fx_est :: "nat CacheEntry \<Rightarrow> nat" where
  "fx_est e = data e"

definition cm0 :: "nat CacheManager" where
  "cm0 = newCacheManager Map.empty 1"

definition cm1 :: "nat CacheManager" where
  "cm1 = cacheSet fx_hash fx_est 0 ''a.ts'' 600000 ''a'' cm0"

definition cm2 :: "nat CacheManager" where
  "cm2 = cacheSet fx_hash fx_est 1 ''b.ts'' 600000 ''b'' cm1"


text \<open>
  A manager created over a persistent tier that already holds \<^verbatim>\<open>b.ts\<close>: the entry is
  promoted by a \<^verbatim>\<open>get\<close>, then \<^verbatim>\<open>a.ts\<close>, \<^verbatim>\<open>b.ts\<close> and \<^verbatim>\<open>c.ts\<close> are set.
\<close>

definition ctx_b :: "string \<rightharpoonup> nat CacheEntry" where
  "ctx_b = [''typemap.cache.b.ts'' \<mapsto>
              \<lparr> key = ''typemap.cache.b.ts'', hash = ''b'', timestamp = 0, data = 200000,
                dependencies = [] \<rparr>]"

definition cm_p1 :: "nat CacheManager" where
  "cm_p1 = snd (get fx_hash fx_est [''b.ts'' \<mapsto> ''b''] ''b.ts'' (newCacheManager ctx_b 1))"

definition cm_p2 :: "nat CacheManager" where
  "cm_p2 = cacheSet fx_hash fx_est 1 ''a.ts'' 400000 ''a'' cm_p1"

definition cm_p3 :: "nat CacheManager" where
  "cm_p3 = cacheSet fx_hash fx_est 2 ''b.ts'' 200000 ''b'' cm_p2"

definition cm_p4 :: "nat CacheManager" where
  "cm_p4 = cacheSet fx_hash fx_est 3 ''c.ts'' 600000 ''c'' cm_p3"

text \<open>
  Two files in \<^verbatim>\<open>/src\<close> that import each other, and a stand-in for Node's path functions
  that is right on such paths.
\<close>

definition fx_pm :: PathModule where
  "fx_pm = \<lparr> pm_dirname = (\<lambda>p. rev (tl (dropWhile (\<lambda>c. c \<noteq> CHR ''/'') (rev p)))),
             pm_resolve = (\<lambda>dir rel. dir @ ''/'' @ drop 2 rel),
             pm_join = (\<lambda>a b. a @ ''/'' @ b),
             pm_normalize = (\<lambda>p. p) \<rparr>"

definition file_a :: ParsedFile where
  "file_a = \<lparr> pf_filePath = ''/src/a.ts'', pf_imports = [''./b''] \<rparr>"

definition file_b :: ParsedFile where
  "file_b = \<lparr> pf_filePath = ''/src/b.ts'', pf_imports = [''./a''] \<rparr>"

text \<open>The second file as a \<^verbatim>\<open>.tsx\<close> file, imported as \<^verbatim>\<open>./b\<close> all the same.\<close>

definition file_b_tsx :: ParsedFile where
  "file_b_tsx = \<lparr> pf_filePath = ''/src/b.tsx'', pf_imports = [''./a''] \<rparr>"

section \<open>Properties of the incremental parser\<close>

lemma adjustLineNumbers_length: "length (adjustLineNumbers syms e) = length syms"
  by (simp add: adjustLineNumbers_def)

lemma adjustLineNumbers_nth:
  "i < length syms \<Longrightarrow>
   adjustLineNumbers syms e ! i =
     (let sym = syms ! i in
      if startLine sym > editEnd e then
        sym\<lparr> startLine := startLine sym + linesDelta e,
             endLine := endLine sym + linesDelta e,
             declarationLine := declarationLine sym + linesDelta e \<rparr>
      else if endLine sym \<ge> editStart e then sym\<lparr> endLine := endLine sym + linesDelta e \<rparr>
      else sym)"
  by (simp add: adjustLineNumbers_def Let_def)

text \<open>
  The body rule of \<^verbatim>\<open>tryPartialParse\<close>: no declaration line in the edited range and
  some symbol whose body holds the range.
\<close>

lemma tryPartialParse_body:
  assumes nodecl: "\<forall>s \<in> set (symbols cached).
             \<not> (editStart e \<le> declarationLine s \<and> declarationLine s \<le> editEnd e)"
      and inside: "\<exists>s \<in> set (symbols cached).
             declarationLine s < editStart e \<and> editEnd e \<le> endLine s"
  shows "tryPartialParse qh st path newContent cached e =
           Some (\<lparr> resultSymbols = adjustLineNumbers (symbols cached) e, parseStrategy = Skip,
                    affectedSymbols = [] \<rparr>,
                 cacheFile qh st path newContent (adjustLineNumbers (symbols cached) e))"
proof -
  let ?P = "\<lambda>sym. editStart e > declarationLine sym \<and> editEnd e \<le> endLine sym"
  have none_affected:
    "filter (\<lambda>sym. declarationLine sym \<ge> editStart e \<and> declarationLine sym \<le> editEnd e)
       (symbols cached) = []"
    using nodecl by (auto simp: filter_empty_conv)
  from inside obtain c where "find ?P (symbols cached) = Some c"
    by (cases "find ?P (symbols cached)") (auto simp: find_None_iff)
  then show ?thesis
    by (simp add: tryPartialParse_def none_affected Let_def)
qed

text \<open>The example file after its first parse.\<close>

lemma lib_split:
  "split_lines lib_v1 = [''function f() {'', ''  return 1;'', ''}'', ''function g() {}'']"
  by (simp add: lib_v1_def)

lemma lib_fullParse: "fullParse fx_hash fx_ts ''lib.ts'' lib_v1 = [lib_f, lib_g]"
  by (simp add: fullParse_def fx_ts_def lib_v1_ast_def extractSymbol_def slice_def fx_hash_def Let_def lib_split lib_f_def lib_g_def)

lemma lib_cached:
  "\<exists>c. lib_state ''lib.ts'' = Some c \<and> fileHash c = lib_v1 \<and> symbols c = [lib_f, lib_g]"
  by (simp add: lib_state_def parseIncremental_def cacheFile_def Let_def fx_hash_def
      lib_fullParse)

lemma lib_changed: "fx_hash lib_v2 \<noteq> lib_v1"
  by (simp add: fx_hash_def lib_v1_def lib_v2_def)

text \<open>
  C7.  Re-parsing unchanged content: when the file is cached and the new content hashes
  to the cached hash, \<^verbatim>\<open>parseIncremental\<close> answers \<^verbatim>\<open>skip\<close> with no affected symbols,
  returns the cached symbol list itself, and leaves the parser's cache as it was,
  whatever edit descriptor comes with the call.
\<close>

theorem parseIncremental_unchanged:
  assumes "st path = Some cached" and "qh newContent = fileHash cached"
  shows "parseIncremental qh ts st path newContent e =
           (\<lparr> resultSymbols = symbols cached, parseStrategy = Skip, affectedSymbols = [] \<rparr>, st)"
  using assms by (simp add: parseIncremental_def Let_def)

theorem parseIncremental_unchanged_witness:
  "parseIncremental fx_hash fx_ts lib_state ''lib.ts'' lib_v1 None =
     (\<lparr> resultSymbols = [lib_f, lib_g], parseStrategy = Skip, affectedSymbols = [] \<rparr>,
      lib_state)"
proof -
  from lib_cached obtain c where c: "lib_state ''lib.ts'' = Some c" "fileHash c = lib_v1"
    "symbols c = [lib_f, lib_g]" by blast
  have h: "fx_hash lib_v1 = fileHash c" by (simp add: c fx_hash_def)
  show ?thesis
    using parseIncremental_unchanged
      [where st = lib_state and path = "''lib.ts''" and cached = c and qh = fx_hash
         and newContent = lib_v1 and ts = fx_ts and e = None] c(1) h
    by (simp add: c)
qed

lemma lib_nodecl:
  "symbols c = [lib_f, lib_g] \<Longrightarrow>
   \<forall>s \<in> set (symbols c).
      \<not> (editStart lib_edit \<le> declarationLine s \<and> declarationLine s \<le> editEnd lib_edit)"
  by (simp add: lib_f_def lib_g_def lib_edit_def)

lemma lib_inside:
  "symbols c = [lib_f, lib_g] \<Longrightarrow>
   \<exists>s \<in> set (symbols c). declarationLine s < editStart lib_edit \<and> editEnd lib_edit \<le> endLine s"
  by (simp add: lib_f_def lib_g_def lib_edit_def)

text \<open>
  C2.  For a cached file and an edit of it (the new content hashes differently from the
  cached content) whose range lies within one symbol's body (after its declaration line,
  not past its end line) and holds no symbol's declaration line, \<^verbatim>\<open>parseIncremental\<close>
  answers \<^verbatim>\<open>skip\<close>; the returned list has the cached list's length, names and kinds
  position by position, and every symbol that starts after the edit has its start, end
  and declaration line moved by exactly the edit's line delta.
\<close>

theorem body_edit_skip_shift:
  assumes cached: "st path = Some cached"
      and changed: "qh newContent \<noteq> fileHash cached"
      and nodecl: "\<forall>s \<in> set (symbols cached).
             \<not> (editStart e \<le> declarationLine s \<and> declarationLine s \<le> editEnd e)"
      and inside: "\<exists>s \<in> set (symbols cached).
             declarationLine s < editStart e \<and> editEnd e \<le> endLine s"
  shows "parseStrategy (fst (parseIncremental qh ts st path newContent (Some e))) = Skip
       \<and> length (resultSymbols (fst (parseIncremental qh ts st path newContent (Some e))))
           = length (symbols cached)
       \<and> (\<forall>i < length (symbols cached).
            name (resultSymbols (fst (parseIncremental qh ts st path newContent (Some e))) ! i)
              = name (symbols cached ! i)
          \<and> kind (resultSymbols (fst (parseIncremental qh ts st path newContent (Some e))) ! i)
              = kind (symbols cached ! i)
          \<and> (editEnd e < startLine (symbols cached ! i) \<longrightarrow>
               resultSymbols (fst (parseIncremental qh ts st path newContent (Some e))) ! i
                 = (symbols cached ! i)
                     \<lparr> startLine := startLine (symbols cached ! i) + linesDelta e,
                       endLine := endLine (symbols cached ! i) + linesDelta e,
                       declarationLine := declarationLine (symbols cached ! i) + linesDelta e \<rparr>))"
proof -
  have r: "fst (parseIncremental qh ts st path newContent (Some e)) =
             \<lparr> resultSymbols = adjustLineNumbers (symbols cached) e, parseStrategy = Skip,
               affectedSymbols = [] \<rparr>"
    using cached changed tryPartialParse_body [OF nodecl inside]
    by (simp add: parseIncremental_def Let_def)
  show ?thesis
    unfolding r by (simp add: adjustLineNumbers_length adjustLineNumbers_nth Let_def)
qed

theorem body_edit_skip_shift_witness:
  "parseStrategy (fst (parseIncremental fx_hash fx_ts lib_state ''lib.ts'' lib_v2 (Some lib_edit))) = Skip
   \<and> length (resultSymbols (fst (parseIncremental fx_hash fx_ts lib_state ''lib.ts'' lib_v2 (Some lib_edit)))) = 2
   \<and> resultSymbols (fst (parseIncremental fx_hash fx_ts lib_state ''lib.ts'' lib_v2 (Some lib_edit))) ! 1
       = lib_g \<lparr> startLine := 5, endLine := 5, declarationLine := 5 \<rparr>"
proof -
  from lib_cached obtain c where c: "lib_state ''lib.ts'' = Some c" "fileHash c = lib_v1"
    "symbols c = [lib_f, lib_g]" by blast
  have changed: "fx_hash lib_v2 \<noteq> fileHash c" using lib_changed by (simp add: c)
  note th = body_edit_skip_shift [where st = lib_state and path = "''lib.ts''" and cached = c
      and qh = fx_hash and newContent = lib_v2 and ts = fx_ts and e = lib_edit,
      OF c(1) changed lib_nodecl [OF c(3)] lib_inside [OF c(3)]]
  have after: "editEnd lib_edit < startLine (symbols c ! 1)"
    by (simp add: c lib_edit_def lib_g_def)
  from th have "\<forall>i < length (symbols c). editEnd lib_edit < startLine (symbols c ! i) \<longrightarrow>
               resultSymbols (fst (parseIncremental fx_hash fx_ts lib_state ''lib.ts'' lib_v2 (Some lib_edit))) ! i
                 = (symbols c ! i)
                     \<lparr> startLine := startLine (symbols c ! i) + linesDelta lib_edit,
                       endLine := endLine (symbols c ! i) + linesDelta lib_edit,
                       declarationLine := declarationLine (symbols c ! i) + linesDelta lib_edit \<rparr>"
    by blast
  with after have "resultSymbols (fst (parseIncremental fx_hash fx_ts lib_state ''lib.ts'' lib_v2 (Some lib_edit))) ! 1
                 = (symbols c ! 1)
                     \<lparr> startLine := startLine (symbols c ! 1) + linesDelta lib_edit,
                       endLine := endLine (symbols c ! 1) + linesDelta lib_edit,
                       declarationLine := declarationLine (symbols c ! 1) + linesDelta lib_edit \<rparr>"
    by (simp add: c)
  then have "resultSymbols (fst (parseIncremental fx_hash fx_ts lib_state ''lib.ts'' lib_v2 (Some lib_edit))) ! 1
       = lib_g \<lparr> startLine := 5, endLine := 5, declarationLine := 5 \<rparr>"
    by (simp add: c lib_g_def lib_edit_def)
  with th show ?thesis by (simp add: c)
qed

text \<open>
  When the content is the cached content nothing was edited, the line delta is 0, and
  the hash comparison returns the cached list as it is: the same answer, with every
  line moved by 0.
\<close>

lemma body_edit_unchanged_content:
  assumes cached: "st path = Some cached"
      and same: "qh newContent = fileHash cached"
      and delta: "linesDelta e = 0"
  shows "parseStrategy (fst (parseIncremental qh ts st path newContent (Some e))) = Skip
       \<and> resultSymbols (fst (parseIncremental qh ts st path newContent (Some e))) = symbols cached
       \<and> (\<forall>i < length (symbols cached).
            symbols cached ! i
              = (symbols cached ! i)
                  \<lparr> startLine := startLine (symbols cached ! i) + linesDelta e,
                    endLine := endLine (symbols cached ! i) + linesDelta e,
                    declarationLine := declarationLine (symbols cached ! i) + linesDelta e \<rparr>)"
  using assms by (simp add: parseIncremental_def Let_def)

text \<open>The invariant \<open>declaration_first\<close> holds of the empty cache and every call keeps it.\<close>

lemma extractSymbol_declaration_first:
  "extractSymbol qh statement lines = Some s \<Longrightarrow> declarationLine s = startLine s"
  by (auto simp: extractSymbol_def Let_def split: if_splits option.splits NodeName.splits list.splits prod.splits)

lemma fullParse_declaration_first:
  "s \<in> set (fullParse qh ts path content) \<Longrightarrow> declarationLine s = startLine s"
  by (auto simp: fullParse_def List.map_filter_def dest: extractSymbol_declaration_first)

lemma adjustLineNumbers_declaration_first:
  "\<forall>s \<in> set syms. declarationLine s = startLine s \<Longrightarrow>
   \<forall>s \<in> set (adjustLineNumbers syms e). declarationLine s = startLine s"
  by (auto simp: adjustLineNumbers_def)

lemma cacheFile_declaration_first:
  assumes "declaration_first st" and "\<forall>s \<in> set syms. declarationLine s = startLine s"
  shows "declaration_first (cacheFile qh st path content syms)"
  using assms unfolding declaration_first_def cacheFile_def by auto

lemma tryPartialParse_declaration_first:
  assumes "declaration_first st" and "st path = Some cached"
      and "tryPartialParse qh st path newContent cached e = Some (r, st')"
  shows "declaration_first st'"
proof -
  have "\<forall>s \<in> set (symbols cached). declarationLine s = startLine s"
    using assms(1,2) unfolding declaration_first_def by blast
  then have "\<forall>s \<in> set (adjustLineNumbers (symbols cached) e). declarationLine s = startLine s"
    by (rule adjustLineNumbers_declaration_first)
  then have "declaration_first (cacheFile qh st path newContent (adjustLineNumbers (symbols cached) e))"
    using assms(1) by (simp add: cacheFile_declaration_first)
  then show ?thesis
    using assms(3) by (auto simp: tryPartialParse_def Let_def split: if_splits option.splits)
qed

lemma parseIncremental_declaration_first:
  assumes "declaration_first st"
  shows "declaration_first (snd (parseIncremental qh ts st path newContent e))"
proof -
  have fb: "declaration_first (cacheFile qh st path newContent (fullParse qh ts path newContent))"
    using assms by (simp add: cacheFile_declaration_first fullParse_declaration_first)
  show ?thesis
    using assms fb tryPartialParse_declaration_first [OF assms]
    by (auto simp: parseIncremental_def Let_def split: option.splits)
qed

lemma declaration_first_empty: "declaration_first Map.empty"
  by (simp add: declaration_first_def)

text \<open>
  C10.  When \<^verbatim>\<open>parseIncremental\<close> resolves a body-interior edit (the content changed,
  the range is a range, no declaration line lies in it, and the symbol at position \<open>i\<close>
  holds it in its body) the strategy is \<^verbatim>\<open>skip\<close>; that symbol keeps its name, kind,
  start line, declaration line and content hash and its end line moves by exactly the
  delta; every symbol lying entirely before the edit is returned unchanged; and the
  returned list is the one stored in the cache.  The premise that the symbol does not
  start after its declaration line is the invariant \<open>declaration_first\<close>.
\<close>

theorem body_edit_frame:
  assumes cached: "st path = Some cached"
      and changed: "qh newContent \<noteq> fileHash cached"
      and nodecl: "\<forall>s \<in> set (symbols cached).
             \<not> (editStart e \<le> declarationLine s \<and> declarationLine s \<le> editEnd e)"
      and range: "editStart e \<le> editEnd e"
      and i: "i < length (symbols cached)"
      and holds: "declarationLine (symbols cached ! i) < editStart e"
                 "editEnd e \<le> endLine (symbols cached ! i)"
      and first: "startLine (symbols cached ! i) \<le> declarationLine (symbols cached ! i)"
      and run: "parseIncremental qh ts st path newContent (Some e) = (r, st')"
  shows "parseStrategy r = Skip
       \<and> name (resultSymbols r ! i) = name (symbols cached ! i)
       \<and> kind (resultSymbols r ! i) = kind (symbols cached ! i)
       \<and> startLine (resultSymbols r ! i) = startLine (symbols cached ! i)
       \<and> declarationLine (resultSymbols r ! i) = declarationLine (symbols cached ! i)
       \<and> contentHash (resultSymbols r ! i) = contentHash (symbols cached ! i)
       \<and> endLine (resultSymbols r ! i) = endLine (symbols cached ! i) + linesDelta e
       \<and> (\<forall>j < length (symbols cached).
            startLine (symbols cached ! j) < editStart e \<and> endLine (symbols cached ! j) < editStart e
            \<longrightarrow> resultSymbols r ! j = symbols cached ! j)
       \<and> (\<exists>c'. st' path = Some c' \<and> symbols c' = resultSymbols r)"
proof -
  have inside: "\<exists>s \<in> set (symbols cached).
      declarationLine s < editStart e \<and> editEnd e \<le> endLine s"
    using i holds by (auto intro: bexI [of _ "symbols cached ! i"])
  have res: "(r, st') =
      (\<lparr> resultSymbols = adjustLineNumbers (symbols cached) e, parseStrategy = Skip,
         affectedSymbols = [] \<rparr>,
       cacheFile qh st path newContent (adjustLineNumbers (symbols cached) e))"
    using cached changed tryPartialParse_body [OF nodecl inside] run [symmetric]
    by (simp add: parseIncremental_def Let_def)
  then have r: "resultSymbols r = adjustLineNumbers (symbols cached) e" "parseStrategy r = Skip"
    and st': "st' = cacheFile qh st path newContent (adjustLineNumbers (symbols cached) e)"
    by auto
  have self: "adjustLineNumbers (symbols cached) e ! i
      = (symbols cached ! i) \<lparr> endLine := endLine (symbols cached ! i) + linesDelta e \<rparr>"
    using i holds first range by (simp add: adjustLineNumbers_nth Let_def)
  have before: "\<forall>j < length (symbols cached).
      startLine (symbols cached ! j) < editStart e \<and> endLine (symbols cached ! j) < editStart e
      \<longrightarrow> adjustLineNumbers (symbols cached) e ! j = symbols cached ! j"
    using range by (simp add: adjustLineNumbers_nth Let_def)
  have stored: "\<exists>c'. st' path = Some c' \<and> symbols c' = resultSymbols r"
    by (simp add: st' r cacheFile_def)
  show ?thesis
    using before stored by (simp add: r self)
qed

theorem body_edit_frame_witness:
  "parseStrategy (fst (parseIncremental fx_hash fx_ts lib_state ''lib.ts'' lib_v2 (Some lib_edit))) = Skip
   \<and> resultSymbols (fst (parseIncremental fx_hash fx_ts lib_state ''lib.ts'' lib_v2 (Some lib_edit))) ! 0
       = lib_f \<lparr> endLine := 4 \<rparr>"
proof -
  from lib_cached obtain c where c: "lib_state ''lib.ts'' = Some c" "fileHash c = lib_v1"
    "symbols c = [lib_f, lib_g]" by blast
  obtain r st' where run:
    "parseIncremental fx_hash fx_ts lib_state ''lib.ts'' lib_v2 (Some lib_edit) = (r, st')"
    by (cases "parseIncremental fx_hash fx_ts lib_state ''lib.ts'' lib_v2 (Some lib_edit)")
  have changed: "fx_hash lib_v2 \<noteq> fileHash c" using lib_changed by (simp add: c)
  have range: "editStart lib_edit \<le> editEnd lib_edit" by (simp add: lib_edit_def)
  have i: "0 < length (symbols c)" by (simp add: c)
  have holds: "declarationLine (symbols c ! 0) < editStart lib_edit"
    "editEnd lib_edit \<le> endLine (symbols c ! 0)"
    "startLine (symbols c ! 0) \<le> declarationLine (symbols c ! 0)"
    by (simp_all add: c lib_f_def lib_edit_def)
  note th = body_edit_frame [where st = lib_state and path = "''lib.ts''" and cached = c
      and qh = fx_hash and newContent = lib_v2 and ts = fx_ts and e = lib_edit and i = 0
      and r = r and st' = st',
      OF c(1) changed lib_nodecl [OF c(3)] range i holds run]
  have "resultSymbols r ! 0 = lib_f \<lparr> endLine := 4 \<rparr>"
    using th by (intro CachedSymbol.equality) (simp_all add: c lib_f_def lib_edit_def)
  with th show ?thesis by (simp add: run)
qed

section \<open>Properties of the cache manager\<close>

declare evictL1.simps [simp del]

lemma sizes_Nil [simp]: "sizes est m [] = []"
  by (simp add: sizes_def)

lemma sizes_Cons [simp]: "sizes est m (k # ks) = int (est (the (l1Cache m k))) # sizes est m ks"
  by (simp add: sizes_def)

lemma sizes_take_cong:
  "k \<notin> set ks \<Longrightarrow> l1Cache m2 = (l1Cache m)(k := None) \<Longrightarrow> sizes est m2 (take j ks) = sizes est m (take j ks)"
  by (auto simp: sizes_def dest: in_set_takeD)

lemma evictL1_char:
  assumes "distinct (l1Order m)" and "set (l1Order m) \<subseteq> dom (l1Cache m)"
  shows "\<exists>n \<le> length (l1Order m).
           l1Order (evictL1 est entrySize maxBytes m) = drop n (l1Order m)
         \<and> l1Cache (evictL1 est entrySize maxBytes m)
             = (\<lambda>k. if k \<in> set (take n (l1Order m)) then None else l1Cache m k)
         \<and> l1SizeBytes (evictL1 est entrySize maxBytes m)
             = l1SizeBytes m - sum_list (sizes est m (take n (l1Order m)))
         \<and> evictions (stats (evictL1 est entrySize maxBytes m)) = evictions (stats m) + n
         \<and> hits (stats (evictL1 est entrySize maxBytes m)) = hits (stats m)
         \<and> misses (stats (evictL1 est entrySize maxBytes m)) = misses (stats m)
         \<and> maxSizeMB (evictL1 est entrySize maxBytes m) = maxSizeMB m
         \<and> workspaceState (evictL1 est entrySize maxBytes m) = workspaceState m
         \<and> (\<forall>j < n. l1SizeBytes m - sum_list (sizes est m (take j (l1Order m))) + entrySize > maxBytes)
         \<and> (n = length (l1Order m)
              \<or> l1SizeBytes m - sum_list (sizes est m (take n (l1Order m))) + entrySize \<le> maxBytes)"
  using assms
proof (induction est entrySize maxBytes m rule: evictL1.induct)
  case (1 est entrySize maxBytes m)
  let ?P = "\<lambda>m n. n \<le> length (l1Order m) \<and>
           l1Order (evictL1 est entrySize maxBytes m) = drop n (l1Order m)
         \<and> l1Cache (evictL1 est entrySize maxBytes m)
             = (\<lambda>k. if k \<in> set (take n (l1Order m)) then None else l1Cache m k)
         \<and> l1SizeBytes (evictL1 est entrySize maxBytes m)
             = l1SizeBytes m - sum_list (sizes est m (take n (l1Order m)))
         \<and> evictions (stats (evictL1 est entrySize maxBytes m)) = evictions (stats m) + n
         \<and> hits (stats (evictL1 est entrySize maxBytes m)) = hits (stats m)
         \<and> misses (stats (evictL1 est entrySize maxBytes m)) = misses (stats m)
         \<and> maxSizeMB (evictL1 est entrySize maxBytes m) = maxSizeMB m
         \<and> workspaceState (evictL1 est entrySize maxBytes m) = workspaceState m
         \<and> (\<forall>j < n. l1SizeBytes m - sum_list (sizes est m (take j (l1Order m))) + entrySize > maxBytes)
         \<and> (n = length (l1Order m)
              \<or> l1SizeBytes m - sum_list (sizes est m (take n (l1Order m))) + entrySize \<le> maxBytes)"
  show ?case
  proof (cases "l1SizeBytes m + entrySize > maxBytes \<and> length (l1Order m) > 0")
    case False
    then have "evictL1 est entrySize maxBytes m = m"
      by (subst evictL1.simps) auto
    with False have "?P m 0" by auto
    then show ?thesis by blast
  next
    case True
    then obtain k ks where order: "l1Order m = k # ks" by (cases "l1Order m") auto
    from "1.prems" order obtain e where e: "l1Cache m k = Some e" by auto
    define m1 where "m1 = m\<lparr> l1Order := tl (l1Order m) \<rparr>"
    define m2 where "m2 = m1\<lparr> l1SizeBytes := l1SizeBytes m1 - int (est e),
        l1Cache := (l1Cache m1)(hd (l1Order m) := None),
        stats := (stats m1)\<lparr> evictions := evictions (stats m1) + 1 \<rparr> \<rparr>"
    have c: "l1Cache m1 (hd (l1Order m)) = Some e"
      using order e by (simp add: m1_def)
    have step: "evictL1 est entrySize maxBytes m = evictL1 est entrySize maxBytes m2"
      using True order e by (subst evictL1.simps) (simp add: m2_def m1_def Let_def)
    have k: "k \<notin> set ks" and dks: "distinct ks" using "1.prems"(1) order by auto
    have m2f: "l1Order m2 = ks" "l1SizeBytes m2 = l1SizeBytes m - int (est e)"
      "l1Cache m2 = (l1Cache m)(k := None)" "evictions (stats m2) = evictions (stats m) + 1"
      "hits (stats m2) = hits (stats m)" "misses (stats m2) = misses (stats m)"
      "maxSizeMB m2 = maxSizeMB m" "workspaceState m2 = workspaceState m"
      by (simp_all add: m2_def m1_def order)
    have pre: "distinct (l1Order m2)" "set (l1Order m2) \<subseteq> dom (l1Cache m2)"
      using "1.prems" order k by (auto simp: m2f)
    from "1.IH"(2) [OF True refl m1_def c, folded m2_def, OF pre]
    obtain n where n: "?P m2 n" by blast
    have sz: "\<And>j. sizes est m2 (take j ks) = sizes est m (take j ks)"
      by (rule sizes_take_cong [OF k]) (simp add: m2f)
    have tk: "\<And>j. sizes est m (take (Suc j) (k # ks)) = int (est e) # sizes est m (take j ks)"
      by (simp add: e)
    have min: "\<forall>j < Suc n. l1SizeBytes m - sum_list (sizes est m (take j (l1Order m))) + entrySize > maxBytes"
    proof (intro allI impI)
      fix j assume j: "j < Suc n"
      show "l1SizeBytes m - sum_list (sizes est m (take j (l1Order m))) + entrySize > maxBytes"
      proof (cases j)
        case 0
        then show ?thesis using True by simp
      next
        case (Suc j')
        with j have "j' < n" by simp
        with n have "l1SizeBytes m2 - sum_list (sizes est m2 (take j' (l1Order m2))) + entrySize > maxBytes"
          by blast
        then show ?thesis by (simp add: Suc order m2f sz e)
      qed
    qed
    have "?P m (Suc n)"
      using n min unfolding step order
      by (auto simp: m2f sz e)
    then show ?thesis by blast
  qed
qed


lemma sizes_append [simp]: "sizes est m (xs @ ys) = sizes est m xs @ sizes est m ys"
  by (simp add: sizes_def)

lemma sizes_cong:
  "(\<And>k. k \<in> set ks \<Longrightarrow> l1Cache m' k = l1Cache m k) \<Longrightarrow> sizes est m' ks = sizes est m ks"
  by (simp add: sizes_def)

lemma l1_consistent_size:
  "l1_consistent est m \<Longrightarrow> l1SizeBytes m = sum_list (sizes est m (l1Order m))"
  by (simp add: l1_consistent_def sizes_def)

lemma setL1_char:
  assumes inv: "l1_consistent est m" and fresh: "k \<notin> set (l1Order m)"
  shows "\<exists>n \<le> length (l1Order m).
           l1Order (setL1 est k entry m) = drop n (l1Order m) @ [k]
         \<and> l1Cache (setL1 est k entry m)
             = (\<lambda>k'. if k' = k then Some entry
                     else if k' \<in> set (take n (l1Order m)) then None else l1Cache m k')
         \<and> evictions (stats (setL1 est k entry m)) = evictions (stats m) + n
         \<and> l1SizeBytes (setL1 est k entry m)
             = l1SizeBytes m - sum_list (sizes est m (take n (l1Order m))) + int (est entry)
         \<and> (\<forall>j < n. l1SizeBytes m - sum_list (sizes est m (take j (l1Order m))) + int (est entry)
                       > maxSizeMB m * 1024 * 1024)
         \<and> (n = length (l1Order m)
              \<or> l1SizeBytes (setL1 est k entry m) \<le> maxSizeMB m * 1024 * 1024)
         \<and> workspaceState (setL1 est k entry m) = workspaceState m
         \<and> maxSizeMB (setL1 est k entry m) = maxSizeMB m
         \<and> hits (stats (setL1 est k entry m)) = hits (stats m)
         \<and> misses (stats (setL1 est k entry m)) = misses (stats m)"
proof -
  define B where "B = maxSizeMB m * 1024 * 1024"
  define m1 where "m1 = evictL1 est (int (est entry)) B m"
  have pre: "distinct (l1Order m)" "set (l1Order m) \<subseteq> dom (l1Cache m)"
    using inv by (auto simp: l1_consistent_def)
  from evictL1_char [OF pre, of est "int (est entry)" B, folded m1_def]
  obtain n where n: "n \<le> length (l1Order m)"
    and ev: "l1Order m1 = drop n (l1Order m)"
      "l1Cache m1 = (\<lambda>k. if k \<in> set (take n (l1Order m)) then None else l1Cache m k)"
      "l1SizeBytes m1 = l1SizeBytes m - sum_list (sizes est m (take n (l1Order m)))"
      "evictions (stats m1) = evictions (stats m) + n"
      "hits (stats m1) = hits (stats m)"
      "misses (stats m1) = misses (stats m)"
      "maxSizeMB m1 = maxSizeMB m"
      "workspaceState m1 = workspaceState m"
    and least: "\<forall>j < n. l1SizeBytes m - sum_list (sizes est m (take j (l1Order m))) + int (est entry) > B"
    and fits: "n = length (l1Order m)
              \<or> l1SizeBytes m - sum_list (sizes est m (take n (l1Order m))) + int (est entry) \<le> B"
    by blast
  have s: "setL1 est k entry m =
      m1\<lparr> l1Cache := (l1Cache m1)(k \<mapsto> entry), l1Order := l1Order m1 @ [k],
          l1SizeBytes := l1SizeBytes m1 + int (est entry),
          stats := (stats m1)\<lparr> sizeBytes := l1SizeBytes m1 + int (est entry) \<rparr> \<rparr>"
    by (simp add: setL1_def Let_def m1_def B_def)
  have cache: "l1Cache (setL1 est k entry m)
             = (\<lambda>k'. if k' = k then Some entry
                     else if k' \<in> set (take n (l1Order m)) then None else l1Cache m k')"
    by (rule ext) (simp add: s ev)
  have rest: "l1Order (setL1 est k entry m) = drop n (l1Order m) @ [k]"
    "evictions (stats (setL1 est k entry m)) = evictions (stats m) + n"
    "l1SizeBytes (setL1 est k entry m)
             = l1SizeBytes m - sum_list (sizes est m (take n (l1Order m))) + int (est entry)"
    "workspaceState (setL1 est k entry m) = workspaceState m"
    "maxSizeMB (setL1 est k entry m) = maxSizeMB m"
    "hits (stats (setL1 est k entry m)) = hits (stats m)"
    "misses (stats (setL1 est k entry m)) = misses (stats m)"
    by (simp_all add: s ev)
  show ?thesis
    using n least fits unfolding B_def
    by (intro exI [of _ n]) (simp add: cache rest)
qed

lemma setL1_consistent:
  assumes inv: "l1_consistent est m" and fresh: "k \<notin> set (l1Order m)"
  shows "l1_consistent est ((setL1 est k entry m)\<lparr> workspaceState := (workspaceState m)(k \<mapsto> entry) \<rparr>)"
proof -
  let ?m' = "(setL1 est k entry m)\<lparr> workspaceState := (workspaceState m)(k \<mapsto> entry) \<rparr>"
  from setL1_char [OF inv fresh, of entry]
  obtain n where n: "n \<le> length (l1Order m)"
    and order: "l1Order (setL1 est k entry m) = drop n (l1Order m) @ [k]"
    and cache: "l1Cache (setL1 est k entry m)
             = (\<lambda>k'. if k' = k then Some entry
                     else if k' \<in> set (take n (l1Order m)) then None else l1Cache m k')"
    and size: "l1SizeBytes (setL1 est k entry m)
             = l1SizeBytes m - sum_list (sizes est m (take n (l1Order m))) + int (est entry)"
    by blast
  have d: "distinct (l1Order m)" and dm: "dom (l1Cache m) = set (l1Order m)"
    and l2all: "\<forall>k e. l1Cache m k = Some e \<longrightarrow> workspaceState m k = Some e"
    using inv by (auto simp: l1_consistent_def)
  have disj: "set (take n (l1Order m)) \<inter> set (drop n (l1Order m)) = {}"
    using d by (metis append_take_drop_id distinct_append)
  have kd: "k \<notin> set (drop n (l1Order m))" using fresh by (auto dest: in_set_dropD)
  have "distinct (l1Order ?m')"
    using d kd by (simp add: order)
  moreover have "dom (l1Cache ?m') = set (l1Order ?m')"
  proof -
    have "set (l1Order m) = set (take n (l1Order m)) \<union> set (drop n (l1Order m))"
      by (metis append_take_drop_id set_append)
    with dm disj show ?thesis
      by (auto simp: cache order dom_def split: if_splits)
  qed
  moreover have "l1SizeBytes ?m' = (\<Sum>k'\<leftarrow>l1Order ?m'. int (est (the (l1Cache ?m' k'))))"
  proof -
    have keep: "sizes est (setL1 est k entry m) (drop n (l1Order m)) = sizes est m (drop n (l1Order m))"
      using kd disj by (intro sizes_cong) (auto simp: cache)
    have "sum_list (sizes est m (l1Order m))
        = sum_list (sizes est m (take n (l1Order m))) + sum_list (sizes est m (drop n (l1Order m)))"
      by (metis append_take_drop_id sizes_append sum_list_append)
    then have "l1SizeBytes (setL1 est k entry m)
        = sum_list (sizes est (setL1 est k entry m) (drop n (l1Order m) @ [k]))"
      using l1_consistent_size [OF inv] by (simp add: size keep cache)
    then show ?thesis by (simp add: order sizes_def)
  qed
  moreover have "\<forall>k' e. l1Cache ?m' k' = Some e \<longrightarrow> workspaceState ?m' k' = Some e"
    using l2all by (auto simp: cache split: if_splits)
  ultimately show ?thesis by (simp add: l1_consistent_def)
qed

lemma cacheSet_consistent:
  assumes "l1_consistent est m" and "getCacheKey H path \<notin> set (l1Order m)"
  shows "l1_consistent est (cacheSet H est now path d content m)"
proof -
  let ?k = "getCacheKey H path"
  let ?e = "\<lparr> key = ?k, hash = H content, timestamp = now, data = d, dependencies = [] \<rparr>"
  from setL1_char [OF assms, of ?e]
  have "workspaceState (setL1 est ?k ?e m) = workspaceState m" by blast
  then have "cacheSet H est now path d content m
      = (setL1 est ?k ?e m)\<lparr> workspaceState := (workspaceState m)(?k \<mapsto> ?e) \<rparr>"
    by (simp add: cacheSet_def Let_def)
  then show ?thesis using setL1_consistent [OF assms, of ?e] by simp
qed

lemma touchL1_consistent:
  assumes "l1_consistent est m"
  shows "l1_consistent est (touchL1 k m)"
proof (cases "k \<in> set (l1Order m)")
  case False
  then show ?thesis using assms by (simp add: touchL1_def)
next
  case True
  have "sum_list (map (\<lambda>k. int (est (the (l1Cache m k)))) (remove1 k (l1Order m)))
        + int (est (the (l1Cache m k)))
      = sum_list (map (\<lambda>k. int (est (the (l1Cache m k)))) (l1Order m))"
    using sum_list_map_remove1 [OF True, of "\<lambda>k. int (est (the (l1Cache m k)))"] by simp
  then show ?thesis
    using assms True by (auto simp: l1_consistent_def touchL1_def)
qed

lemma stats_update_consistent [simp]:
  "l1_consistent est (m\<lparr> stats := s \<rparr>) = l1_consistent est m"
  by (simp add: l1_consistent_def)

lemma get_consistent:
  assumes inv: "l1_consistent est m"
  shows "l1_consistent est (snd (get H est fs path m))"
proof -
  let ?k = "getCacheKey H path"
  have promote: "l1_consistent est (setL1 est ?k e m)"
    if "workspaceState m ?k = Some e" "l1Cache m ?k = None \<or> (\<exists>e'. l1Cache m ?k = Some e' \<and> hash e' \<noteq> hash e)" for e
  proof -
    have "l1Cache m ?k = None"
      using that inv by (auto simp: l1_consistent_def)
    then have fresh: "?k \<notin> set (l1Order m)"
      using inv by (auto simp: l1_consistent_def)
    have ws: "workspaceState (setL1 est ?k e m) = workspaceState m"
      using setL1_char [OF inv fresh, of e] by blast
    have "(setL1 est ?k e m)\<lparr> workspaceState := (workspaceState m)(?k \<mapsto> e) \<rparr> = setL1 est ?k e m"
      using that(1) ws by (simp add: fun_upd_idem)
    with setL1_consistent [OF inv fresh, of e] show ?thesis by simp
  qed
  show ?thesis
    using inv touchL1_consistent [OF inv, of ?k] promote
    by (auto simp: get_def getFileHash_def Let_def split: option.splits)
qed

text \<open>
  Consistency along a sequence of calls: it holds of a new manager and of a cleared one
  (below), every \<^verbatim>\<open>get\<close> keeps it, and so does every \<^verbatim>\<open>set\<close> of a key that the first
  tier does not hold when it is set.
\<close>

lemma calls_consistent:
  "l1_consistent est m \<Longrightarrow> sets_fresh H est calls m
     \<Longrightarrow> l1_consistent est (fold (applyCall H est) calls m)"
proof (induction calls arbitrary: m)
  case Nil
  then show ?case by simp
next
  case (Cons c cs)
  have "l1_consistent est (applyCall H est c m)"
  proof (cases c)
    case (CallSet now path d content)
    with Cons.prems show ?thesis by (simp add: cacheSet_consistent)
  next
    case (CallGet fs path)
    with Cons.prems show ?thesis by (simp add: get_consistent)
  qed
  with Cons show ?case by simp
qed



text \<open>A new manager and a cleared one are consistent.\<close>

lemma newCacheManager_consistent: "l1_consistent est (newCacheManager context mb)"
  by (simp add: l1_consistent_def newCacheManager_def)

lemma clear_consistent: "l1_consistent est (clear m)"
  by (simp add: l1_consistent_def clear_def)


lemma cm0_eval:
  "l1Order cm0 = []" "l1SizeBytes cm0 = 0" "maxSizeMB cm0 = 1" "evictions (stats cm0) = 0"
  "l1Cache cm0 = Map.empty"
  by (simp_all add: cm0_def newCacheManager_def)

lemma cm1_eval:
  "l1Order cm1 = [''typemap.cache.a.ts'']"
  "l1SizeBytes cm1 = 600000"
  "maxSizeMB cm1 = 1"
  "evictions (stats cm1) = 0"
  "l1Cache cm1 ''typemap.cache.a.ts''
     = Some \<lparr> key = ''typemap.cache.a.ts'', hash = ''a'', timestamp = 0, data = 600000,
              dependencies = [] \<rparr>"
  "workspaceState cm1 ''typemap.cache.a.ts''
     = Some \<lparr> key = ''typemap.cache.a.ts'', hash = ''a'', timestamp = 0, data = 600000,
              dependencies = [] \<rparr>"
  by (simp_all add: cm1_def cacheSet_def setL1_def Let_def evictL1.simps cm0_eval
      getCacheKey_def fx_hash_def fx_est_def)

lemma cm2_eval:
  "l1Order cm2 = [''typemap.cache.b.ts'']"
  "evictions (getStats cm2) = 1"
  "sizeBytes (getStats cm2) = 600000"
  by (simp_all add: cm2_def cacheSet_def setL1_def Let_def evictL1.simps cm1_eval
      getCacheKey_def fx_hash_def fx_est_def getStats_def)


text \<open>
  The premise that the key is not held matters.  \<^verbatim>\<open>setL1\<close> pushes the key without
  looking for it in the order list: after a \<^verbatim>\<open>get\<close> has promoted \<^verbatim>\<open>b.ts\<close> from the
  persistent tier, setting \<^verbatim>\<open>a.ts\<close> and then \<^verbatim>\<open>b.ts\<close> leaves the key of \<^verbatim>\<open>b.ts\<close> twice in
  the list, its size counted twice, and the next \<^verbatim>\<open>set\<close> that needs room evicts
  \<^verbatim>\<open>b.ts\<close>, the entry set last, before \<^verbatim>\<open>a.ts\<close>.
\<close>

lemma cm_p1_eval:
  "l1Order cm_p1 = [''typemap.cache.b.ts'']"
  "l1SizeBytes cm_p1 = 200000"
  "maxSizeMB cm_p1 = 1"
  "evictions (stats cm_p1) = 0"
  "l1Cache cm_p1 ''typemap.cache.b.ts''
     = Some \<lparr> key = ''typemap.cache.b.ts'', hash = ''b'', timestamp = 0, data = 200000,
              dependencies = [] \<rparr>"
  "l1Cache cm_p1 ''typemap.cache.a.ts'' = None"
  by (simp_all add: cm_p1_def get_def getFileHash_def setL1_def Let_def evictL1.simps
      newCacheManager_def ctx_b_def getCacheKey_def fx_hash_def fx_est_def)

lemma cm_p2_eval:
  "l1Order cm_p2 = [''typemap.cache.b.ts'', ''typemap.cache.a.ts'']"
  "l1SizeBytes cm_p2 = 600000"
  "maxSizeMB cm_p2 = 1"
  "evictions (stats cm_p2) = 0"
  "l1Cache cm_p2 ''typemap.cache.b.ts''
     = Some \<lparr> key = ''typemap.cache.b.ts'', hash = ''b'', timestamp = 0, data = 200000,
              dependencies = [] \<rparr>"
  "l1Cache cm_p2 ''typemap.cache.a.ts''
     = Some \<lparr> key = ''typemap.cache.a.ts'', hash = ''a'', timestamp = 1, data = 400000,
              dependencies = [] \<rparr>"
  by (simp_all add: cm_p2_def cacheSet_def setL1_def Let_def evictL1.simps cm_p1_eval
      getCacheKey_def fx_hash_def fx_est_def)

lemma cm_p3_eval:
  "l1Order cm_p3 = [''typemap.cache.b.ts'', ''typemap.cache.a.ts'', ''typemap.cache.b.ts'']"
  "l1SizeBytes cm_p3 = 800000"
  "maxSizeMB cm_p3 = 1"
  "evictions (stats cm_p3) = 0"
  "l1Cache cm_p3 ''typemap.cache.b.ts''
     = Some \<lparr> key = ''typemap.cache.b.ts'', hash = ''b'', timestamp = 2, data = 200000,
              dependencies = [] \<rparr>"
  "l1Cache cm_p3 ''typemap.cache.a.ts''
     = Some \<lparr> key = ''typemap.cache.a.ts'', hash = ''a'', timestamp = 1, data = 400000,
              dependencies = [] \<rparr>"
  by (simp_all add: cm_p3_def cacheSet_def setL1_def Let_def evictL1.simps cm_p2_eval
      getCacheKey_def fx_hash_def fx_est_def)

lemma set_of_held_key:
  "l1Order cm_p3 = [''typemap.cache.b.ts'', ''typemap.cache.a.ts'', ''typemap.cache.b.ts'']
   \<and> l1Order cm_p4 = [''typemap.cache.b.ts'', ''typemap.cache.c.ts'']
   \<and> l1Cache cm_p4 ''typemap.cache.b.ts'' = None
   \<and> l1Cache cm_p4 ''typemap.cache.a.ts'' = None
   \<and> evictions (getStats cm_p4) = 2"
  by (simp add: cm_p4_def cacheSet_def setL1_def Let_def evictL1.simps cm_p3_eval
      getCacheKey_def fx_hash_def fx_est_def getStats_def)


text \<open>
  C4.  \<^verbatim>\<open>get\<close> never serves an entry whose stored hash differs from the hash of the
  file's current content: whatever it returns is the data of an entry of one of the two
  tiers whose hash is the current one; when the entries of both tiers mismatch (or are
  absent) the answer is \<^verbatim>\<open>null\<close>; and a mismatching first-tier entry is passed over
  for a matching second-tier one.
\<close>

theorem get_never_serves_stale:
  "(\<forall>d. fst (get H est fs path m) = Some d \<longrightarrow>
      (\<exists>c e. fs path = Some c \<and> hash e = H c \<and> data e = d
         \<and> (l1Cache m (getCacheKey H path) = Some e
              \<or> workspaceState m (getCacheKey H path) = Some e)))
   \<and> (\<forall>c. fs path = Some c
          \<and> (\<forall>e. l1Cache m (getCacheKey H path) = Some e \<longrightarrow> hash e \<noteq> H c)
          \<and> (\<forall>e. workspaceState m (getCacheKey H path) = Some e \<longrightarrow> hash e \<noteq> H c)
        \<longrightarrow> fst (get H est fs path m) = None)
   \<and> (\<forall>c e1 e2. fs path = Some c \<and> H c \<noteq> []
          \<and> l1Cache m (getCacheKey H path) = Some e1 \<and> hash e1 \<noteq> H c
          \<and> workspaceState m (getCacheKey H path) = Some e2 \<and> hash e2 = H c
        \<longrightarrow> fst (get H est fs path m) = Some (data e2))"
  by (auto simp: get_def getFileHash_def Let_def split: option.splits if_splits)

theorem get_never_serves_stale_witness:
  "fst (get fx_hash fx_est [''a.ts'' \<mapsto> ''a2''] ''a.ts'' cm1) = None"
proof -
  have k: "getCacheKey fx_hash ''a.ts'' = ''typemap.cache.a.ts''"
    by (simp add: getCacheKey_def fx_hash_def)
  have "[''a.ts'' \<mapsto> ''a2''] ''a.ts'' = Some ''a2''
      \<and> (\<forall>e. l1Cache cm1 (getCacheKey fx_hash ''a.ts'') = Some e \<longrightarrow> hash e \<noteq> fx_hash ''a2'')
      \<and> (\<forall>e. workspaceState cm1 (getCacheKey fx_hash ''a.ts'') = Some e \<longrightarrow> hash e \<noteq> fx_hash ''a2'')"
    by (auto simp: k cm1_eval fx_hash_def)
  with get_never_serves_stale [of fx_hash fx_est "[''a.ts'' \<mapsto> ''a2'']" "''a.ts''" cm1]
  show ?thesis by blast
qed

text \<open>
  C6 fails on the code.  \<^verbatim>\<open>clear()\<close> empties the first tier and zeroes the counters,
  and \<^verbatim>\<open>getStats\<close> reports zeros right after it; but the persistent tier is left as
  it was (the source says so: "Clear L2 - we need to iterate through workspace state
  keys.  For now, just reset stats"), so a key set before the clear, with the file's
  content unchanged, is a hit afterwards.
\<close>

theorem clear_keeps_persistent_tier:
  assumes "fs path = Some content" and "H content \<noteq> []"
  shows "hits (getStats (clear (cacheSet H est now path d content m))) = 0
       \<and> misses (getStats (clear (cacheSet H est now path d content m))) = 0
       \<and> sizeBytes (getStats (clear (cacheSet H est now path d content m))) = 0
       \<and> evictions (getStats (clear (cacheSet H est now path d content m))) = 0
       \<and> l1Cache (clear (cacheSet H est now path d content m)) = Map.empty
       \<and> workspaceState (clear (cacheSet H est now path d content m)) (getCacheKey H path)
           = Some \<lparr> key = getCacheKey H path, hash = H content, timestamp = now, data = d,
                    dependencies = [] \<rparr>
       \<and> fst (get H est fs path (clear (cacheSet H est now path d content m))) = Some d
       \<and> hits (getStats (snd (get H est fs path (clear (cacheSet H est now path d content m))))) = 1
       \<and> misses (getStats (snd (get H est fs path (clear (cacheSet H est now path d content m))))) = 0"
proof -
  let ?m = "clear (cacheSet H est now path d content m)"
  have f: "l1Cache ?m = Map.empty" "l1Order ?m = []" "l1SizeBytes ?m = 0"
    "hits (stats ?m) = 0" "misses (stats ?m) = 0" "evictions (stats ?m) = 0"
    "workspaceState ?m (getCacheKey H path)
       = Some \<lparr> key = getCacheKey H path, hash = H content, timestamp = now, data = d,
                dependencies = [] \<rparr>"
    by (simp_all add: clear_def cacheSet_def Let_def)
  have ev: "\<And>e s. evictL1 est s (maxSizeMB ?m * 1024 * 1024) ?m = ?m"
    by (subst evictL1.simps) (simp add: f)
  have g: "get H est fs path ?m =
      (Some d, (setL1 est (getCacheKey H path)
         \<lparr> key = getCacheKey H path, hash = H content, timestamp = now, data = d,
           dependencies = [] \<rparr> ?m)
         \<lparr> stats := (stats (setL1 est (getCacheKey H path)
            \<lparr> key = getCacheKey H path, hash = H content, timestamp = now, data = d,
              dependencies = [] \<rparr> ?m))
            \<lparr> hits := hits (stats (setL1 est (getCacheKey H path)
               \<lparr> key = getCacheKey H path, hash = H content, timestamp = now, data = d,
                 dependencies = [] \<rparr> ?m)) + 1 \<rparr> \<rparr>)"
    using assms by (simp add: get_def getFileHash_def Let_def f)
  have h: "hits (stats (setL1 est k e ?m)) = 0" "misses (stats (setL1 est k e ?m)) = 0" for k e
    using ev by (simp_all add: setL1_def Let_def f)
  show ?thesis
    by (simp add: g getStats_def f h)
qed

theorem clear_keeps_persistent_tier_witness:
  "fst (get fx_hash fx_est [''a.ts'' \<mapsto> ''a''] ''a.ts''
         (clear (cacheSet fx_hash fx_est 0 ''a.ts'' 600000 ''a'' cm0))) = Some 600000"
proof -
  have h: "[''a.ts'' \<mapsto> ''a''] ''a.ts'' = Some ''a''" "fx_hash ''a'' \<noteq> []"
    by (simp_all add: fx_hash_def)
  show ?thesis
    using clear_keeps_persistent_tier [where fs = "[''a.ts'' \<mapsto> ''a'']" and path = "''a.ts''"
        and content = "''a''" and H = fx_hash and est = fx_est and now = 0 and d = 600000
        and m = cm0] h
    by blast
qed

section \<open>Properties of the lightweight parser and of the two parsers together\<close>

text \<open>
  C9 fails on the code.  The test \<^verbatim>\<open>name[3] === name[3].toUpperCase()\<close> holds of every
  character that has no upper-case form, not only of the upper-case letters: the function
  \<^verbatim>\<open>use_state\<close>, whose fourth character is an underscore, is classified as a hook, in a
  plain file and in a TSX file alike, and so is \<^verbatim>\<open>use1\<close>.
\<close>

theorem hook_without_uppercase:
  "detectReactHookOrComponent ''use_state'' False = Inr ''hook''
   \<and> detectReactHookOrComponent ''use_state'' True = Inr ''hook''
   \<and> detectReactHookOrComponent ''use1'' False = Inr ''hook''
   \<and> \<not> is_AZ (''use_state'' ! 3)
   \<and> (case fst (parseFile fx_hash fx_est_syms 0 [''hooks.ts'' \<mapsto> hooks_src] fx_ts
                  ''hooks.ts'' lp0) of
        Inr syms \<Rightarrow> map symName syms = [''use_state''] \<and> map symKind syms = [''hook'']
      | Inl e \<Rightarrow> False)"
  by code_simp

text \<open>What the test does decide: the kind is \<^verbatim>\<open>hook\<close> exactly when it holds.\<close>

lemma hook_iff:
  "detectReactHookOrComponent n isTsx = Inr ''hook''
     \<longleftrightarrow> take 3 n = ''use'' \<and> length n > 3 \<and> upper_fixed (n ! 3)"
  by (auto simp: detectReactHookOrComponent_def split: list.splits)

text \<open>
  C1 (as amended).  \<^verbatim>\<open>parseFile\<close> of \<^verbatim>\<open>a.ts\<close> returns exactly the two symbols \<^verbatim>\<open>X\<close> and
  \<^verbatim>\<open>f\<close>, and \<^verbatim>\<open>f\<close> has complexity 1.  The edit of the literal is on line 2, which is the
  declaration line of \<^verbatim>\<open>f\<close>: \<^verbatim>\<open>parseIncremental\<close> answers \<^verbatim>\<open>full\<close>, with the edit
  descriptor and without one, and the symbol count is still 2.
\<close>

theorem a_ts_scenario:
  "(case fst (parseFile fx_hash fx_est_syms 0 [''a.ts'' \<mapsto> a_v1] fx_ts ''a.ts'' lp0) of
      Inr syms \<Rightarrow> map symName syms = [''X'', ''f'']
                 \<and> map complexity syms = [Some 1, Some 1]
    | Inl e \<Rightarrow> False)
   \<and> parseStrategy (fst (parseIncremental fx_hash fx_ts a_state ''a.ts'' a_v2
                           (Some a_edit_literal))) = Full
   \<and> map name (resultSymbols (fst (parseIncremental fx_hash fx_ts a_state ''a.ts'' a_v2
                                     (Some a_edit_literal)))) = [''X'', ''f'']
   \<and> parseStrategy (fst (parseIncremental fx_hash fx_ts a_state ''a.ts'' a_v2 None)) = Full
   \<and> map name (resultSymbols (fst (parseIncremental fx_hash fx_ts a_state ''a.ts'' a_v2
                                     None))) = [''X'', ''f'']"
  by code_simp

text \<open>
  C1 as stated fails: the strategy for the edit of the literal is not \<^verbatim>\<open>skip\<close>.  The cached
  declaration line of \<^verbatim>\<open>f\<close> is 2 and the edit is the range from 2 to 2.
\<close>

theorem a_ts_literal_edit_counterexample:
  "map declarationLine (resultSymbols (fst (parseIncremental fx_hash fx_ts Map.empty ''a.ts''
                                             a_v1 None))) = [1, 2]
   \<and> parseStrategy (fst (parseIncremental fx_hash fx_ts a_state ''a.ts'' a_v2
                           (Some a_edit_literal))) \<noteq> Skip"
  by code_simp

text \<open>The lines of code of the one-line function \<^verbatim>\<open>f\<close> come out as 0.\<close>

lemma a_ts_lines_of_code:
  "(case fst (parseFile fx_hash fx_est_syms 0 [''a.ts'' \<mapsto> a_v1] fx_ts ''a.ts'' lp0) of
      Inr syms \<Rightarrow> map linesOfCode syms = [0, 0]
    | Inl e \<Rightarrow> False)"
  by code_simp

text \<open>
  C3 fails on the code.  Appending the exported declaration
  \<^verbatim>\<open>export async function g() {}\<close> as line 3 of \<^verbatim>\<open>a.ts\<close> is an edit between symbols; none
  of the three regular expressions matches the new line, the count stays 2, and
  \<^verbatim>\<open>parseIncremental\<close> answers \<^verbatim>\<open>partial\<close> with the old two symbols, although a full
  parse of the new content finds three.
\<close>

theorem new_export_answered_partial:
  "quickDeclarationCount a_v1 = 2
   \<and> quickDeclarationCount a_v3 = 2
   \<and> parseStrategy (fst (parseIncremental fx_hash fx_ts a_state ''a.ts'' a_v3
                           (Some a_edit_append))) = Partial
   \<and> map name (resultSymbols (fst (parseIncremental fx_hash fx_ts a_state ''a.ts'' a_v3
                                     (Some a_edit_append)))) = [''X'', ''f'']
   \<and> map name (fullParse fx_hash fx_ts ''a.ts'' a_v3) = [''X'', ''f'', ''g'']"
  by code_simp

section \<open>Properties of the dependency analyzer\<close>

text \<open>
  C8 fails on the code.  \<^verbatim>\<open>/src/a.ts\<close> imports \<^verbatim>\<open>./b\<close> and \<^verbatim>\<open>/src/b.tsx\<close> imports
  \<^verbatim>\<open>./a\<close>, and there is no other import.  \<^verbatim>\<open>resolveImportPath\<close> tries the extension
  \<^verbatim>\<open>.ts\<close> first and \<^verbatim>\<open>isKnownFile\<close> accepts any path with that suffix, so \<^verbatim>\<open>./b\<close>
  resolves to \<^verbatim>\<open>/src/b.ts\<close>, which is not among the files: the edge from \<^verbatim>\<open>a.ts\<close> to
  \<^verbatim>\<open>b.tsx\<close> is dropped and \<^verbatim>\<open>analyze\<close> reports no circular dependency, in either order
  of the two files.
\<close>

theorem tsx_two_cycle_missed:
  "pf_imports file_a = [''./b''] \<and> pf_imports file_b_tsx = [''./a'']
   \<and> resolveImportPath fx_pm (pf_filePath file_a) ''./b'' = Some ''/src/b.ts''
   \<and> buildDependencyGraph fx_pm [file_a, file_b_tsx]
       = [(''/src/a.ts'', []), (''/src/b.tsx'', [''/src/a.ts''])]
   \<and> (case analyze 3 fx_pm [file_a, file_b_tsx] of
        Some r \<Rightarrow> circularDependencies r = [] \<and> totalCircularDependencies r = 0
      | None \<Rightarrow> False)
   \<and> (case analyze 3 fx_pm [file_b_tsx, file_a] of
        Some r \<Rightarrow> circularDependencies r = [] \<and> totalCircularDependencies r = 0
      | None \<Rightarrow> False)"
  by code_simp

text \<open>
  When the analyzer resolves each of the two imports to the other file, the cycle is
  found, once and with length 2, whichever file comes first and at every recursion bound
  from 3 on.
\<close>

lemma two_cycle_graph:
  assumes "normalizePath pm (pf_filePath A) = a" and "normalizePath pm (pf_filePath B) = b"
      and "a \<noteq> b" and "a \<noteq> []" and "b \<noteq> []"
      and "pf_imports A = [ia]" and "resolveImportPath pm (pf_filePath A) ia = Some b"
      and "pf_imports B = [ib]" and "resolveImportPath pm (pf_filePath B) ib = Some a"
  shows "buildDependencyGraph pm [A, B] = [(a, [b]), (b, [a])]"
  using assms by (simp add: buildDependencyGraph_def set_add_def Let_def)

lemma two_cycle_detect:
  assumes "a \<noteq> b"
  shows "detectCircularDependencies (Suc (Suc (Suc n))) [(a, [b]), (b, [a])]
           = Some [\<lparr> cycle = [a, b], cycleLength = 2 \<rparr>]"
  using assms
  by (simp add: detectCircularDependencies_def recordCycle_def isCycleAlreadyFound_def Let_def)

lemma two_cycle_on_resolved_imports:
  fixes A B :: ParsedFile
  assumes "normalizePath pm (pf_filePath A) = a" and "normalizePath pm (pf_filePath B) = b"
      and "a \<noteq> b" and "a \<noteq> []" and "b \<noteq> []"
      and "pf_imports A = [ia]" and "resolveImportPath pm (pf_filePath A) ia = Some b"
      and "pf_imports B = [ib]" and "resolveImportPath pm (pf_filePath B) ib = Some a"
  shows "(\<exists>r. analyze (n + 3) pm [A, B] = Some r
              \<and> circularDependencies r = [\<lparr> cycle = [a, b], cycleLength = 2 \<rparr>]
              \<and> totalCircularDependencies r = 1)
       \<and> (\<exists>r. analyze (n + 3) pm [B, A] = Some r
              \<and> circularDependencies r = [\<lparr> cycle = [b, a], cycleLength = 2 \<rparr>]
              \<and> totalCircularDependencies r = 1)"
proof -
  have n: "n + 3 = Suc (Suc (Suc n))" by simp
  have g1: "buildDependencyGraph pm [A, B] = [(a, [b]), (b, [a])]"
    using assms by (intro two_cycle_graph) auto
  have g2: "buildDependencyGraph pm [B, A] = [(b, [a]), (a, [b])]"
    using assms by (intro two_cycle_graph) auto
  have ab: "a \<noteq> b" "b \<noteq> a" using assms by auto
  show ?thesis
    unfolding n
    by (simp add: analyze_def Let_def g1 g2 two_cycle_detect [OF ab(1)]
        two_cycle_detect [OF ab(2)])
qed

lemma two_files_resolve:
  "normalizePath fx_pm (pf_filePath file_a) = ''/src/a.ts''
   \<and> normalizePath fx_pm (pf_filePath file_b) = ''/src/b.ts''
   \<and> ''/src/a.ts'' \<noteq> ''/src/b.ts'' \<and> ''/src/a.ts'' \<noteq> [] \<and> ''/src/b.ts'' \<noteq> []
   \<and> pf_imports file_a = [''./b'']
   \<and> resolveImportPath fx_pm (pf_filePath file_a) ''./b'' = Some ''/src/b.ts''
   \<and> pf_imports file_b = [''./a'']
   \<and> resolveImportPath fx_pm (pf_filePath file_b) ''./a'' = Some ''/src/a.ts''"
  by code_simp

text \<open>So it is for \<^verbatim>\<open>/src/a.ts\<close> and \<^verbatim>\<open>/src/b.ts\<close>.\<close>

lemma two_ts_files_cycle:
  "\<exists>r. analyze 3 fx_pm [file_a, file_b] = Some r
       \<and> circularDependencies r = [\<lparr> cycle = [''/src/a.ts'', ''/src/b.ts''], cycleLength = 2 \<rparr>]
       \<and> totalCircularDependencies r = 1"
proof -
  have "\<exists>r. analyze (0 + 3) fx_pm [file_a, file_b] = Some r
       \<and> circularDependencies r = [\<lparr> cycle = [''/src/a.ts'', ''/src/b.ts''], cycleLength = 2 \<rparr>]
       \<and> totalCircularDependencies r = 1"
    using two_cycle_on_resolved_imports [of fx_pm file_a _ file_b _ _ _ 0] two_files_resolve
    by blast
  then show ?thesis by simp
qed

text \<open>
  The coupling metrics.  The metrics \<^verbatim>\<open>analyze\<close> returns are those of
  \<^verbatim>\<open>calculateCouplingMetrics\<close> on the graph it built.
\<close>

lemma analyze_fileMetrics:
  assumes "analyze fuel pm files = Some r"
  shows "fileMetrics r = calculateCouplingMetrics pm (buildDependencyGraph pm files) files"
  using assms by (auto simp: analyze_def Let_def split: option.splits)

lemma instability_bounds:
  assumes "(p, fm) \<in> set (calculateCouplingMetrics pm g files)"
  shows "0 \<le> instability fm \<and> instability fm \<le> 1
       \<and> (afferentCoupling fm + efferentCoupling fm > 0 \<longrightarrow>
            instability fm = real (efferentCoupling fm)
                               / real (afferentCoupling fm + efferentCoupling fm))
       \<and> (afferentCoupling fm = 0 \<and> efferentCoupling fm = 0 \<longrightarrow> instability fm = 0)"
proof -
  from assms obtain fm0 where fm: "fm = fm0\<lparr> instability :=
       (if afferentCoupling fm0 + efferentCoupling fm0 > 0
        then real (efferentCoupling fm0) / real (afferentCoupling fm0 + efferentCoupling fm0)
        else 0) \<rparr>"
    by (auto simp: calculateCouplingMetrics_def Let_def)
  have "real (efferentCoupling fm0) / real (afferentCoupling fm0 + efferentCoupling fm0) \<le> 1"
    using divide_le_eq_1 [of "real (efferentCoupling fm0)"
        "real (afferentCoupling fm0 + efferentCoupling fm0)"]
    by (cases "afferentCoupling fm0 + efferentCoupling fm0 = 0") auto
  then show ?thesis by (simp add: fm)
qed

lemma map_of_map_upd:
  "map_of (map_upd k f m) p = (if p = k then map_option f (map_of m p) else map_of m p)"
  by (induction m) (auto simp: map_upd_def)

lemma map_of_map_set:
  "map_of (map_set k v m) p = (if p = k then Some v else map_of m p)"
  by (induction m) auto

lemma fst_map_set: "fst ` set (map_set k v m) = insert k (fst ` set m)"
proof -
  have "dom (map_of (map_set k v m)) = insert k (dom (map_of m))"
    by (auto simp: map_of_map_set dom_def)
  then show ?thesis by (simp add: dom_map_of_conv_image_fst)
qed

lemma distinct_map_set: "distinct (map fst m) \<Longrightarrow> distinct (map fst (map_set k v m))"
proof (induction m)
  case Nil
  then show ?case by simp
next
  case (Cons a m)
  obtain k' v' where a: "a = (k', v')" by (cases a)
  show ?case
  proof (cases "k' = k")
    case True
    with Cons.prems a show ?thesis by simp
  next
    case False
    with Cons a fst_map_set [of k v m] show ?thesis by auto
  qed
qed

text \<open>The inner loop of the second pass: one importer \<open>q\<close>, its dependencies \<open>ds\<close>.\<close>

lemma bump_afferent:
  "map_option afferentCoupling
     (map_of (fold (\<lambda>dep metrics'.
                case map_of metrics' dep of
                  None \<Rightarrow> metrics'
                | Some _ \<Rightarrow>
                    map_upd dep
                      (\<lambda>dm. dm\<lparr> afferentCoupling := afferentCoupling dm + 1,
                                dependedOnBy := dependedOnBy dm @ [q] \<rparr>)
                      metrics') ds m) p)
   = map_option (\<lambda>a. a + count_list ds p) (map_option afferentCoupling (map_of m p))"
proof (induction ds arbitrary: m)
  case Nil
  then show ?case by (simp add: option.map_comp o_def option.map_ident)
next
  case (Cons d ds)
  show ?case
    by (simp add: Cons.IH map_of_map_upd option.map_comp o_def split: option.splits)
qed

lemma bump_efferent:
  "map_option efferentCoupling
     (map_of (fold (\<lambda>dep metrics'.
                case map_of metrics' dep of
                  None \<Rightarrow> metrics'
                | Some _ \<Rightarrow>
                    map_upd dep
                      (\<lambda>dm. dm\<lparr> afferentCoupling := afferentCoupling dm + 1,
                                dependedOnBy := dependedOnBy dm @ [q] \<rparr>)
                      metrics') ds m) p)
   = map_option efferentCoupling (map_of m p)"
proof (induction ds arbitrary: m)
  case Nil
  then show ?case by simp
next
  case (Cons d ds)
  show ?case
    by (simp add: Cons.IH map_of_map_upd option.map_comp o_def split: option.splits)
qed

lemma calculateCouplingMetrics_passes:
  "calculateCouplingMetrics pm g files =
     map (\<lambda>(path, fm).
            (path,
             fm\<lparr> instability :=
                   (if afferentCoupling fm + efferentCoupling fm > 0
                    then real (efferentCoupling fm)
                           / real (afferentCoupling fm + efferentCoupling fm)
                    else 0) \<rparr>))
       (fold couplingPass g (initialMetrics pm files))"
proof -
  have "(\<lambda>(path, deps) metrics.
                    case map_of metrics path of
                      None \<Rightarrow> metrics
                    | Some _ \<Rightarrow>
                        fold (\<lambda>dep metrics'.
                                case map_of metrics' dep of
                                  None \<Rightarrow> metrics'
                                | Some _ \<Rightarrow>
                                    map_upd dep
                                      (\<lambda>dm. dm\<lparr> afferentCoupling := afferentCoupling dm + 1,
                                                dependedOnBy := dependedOnBy dm @ [path] \<rparr>)
                                      metrics')
                          deps
                          (map_upd path
                             (\<lambda>fm. fm\<lparr> efferentCoupling := length deps, dependsOn := deps \<rparr>)
                             metrics)) = couplingPass"
    by (auto simp: fun_eq_iff couplingPass_def markDependents_def split: option.splits)
  then show ?thesis
    by (simp add: calculateCouplingMetrics_def initialMetrics_def Let_def)
qed

lemma markDependents_afferent:
  "map_option afferentCoupling (map_of (markDependents q ds m) p)
   = map_option (\<lambda>a. a + count_list ds p) (map_option afferentCoupling (map_of m p))"
  unfolding markDependents_def by (rule bump_afferent)

lemma markDependents_efferent:
  "map_option efferentCoupling (map_of (markDependents q ds m) p)
   = map_option efferentCoupling (map_of m p)"
  unfolding markDependents_def by (rule bump_efferent)

lemma couplingPass_afferent:
  assumes "map_of m (fst entry) \<noteq> None"
  shows "map_option afferentCoupling (map_of (couplingPass entry m) p)
   = map_option (\<lambda>a. a + count_list (snd entry) p) (map_option afferentCoupling (map_of m p))"
  using assms
  by (auto simp: couplingPass_def markDependents_afferent map_of_map_upd option.map_comp o_def)

lemma couplingPass_efferent:
  assumes "map_of m (fst entry) \<noteq> None"
  shows "map_option efferentCoupling (map_of (couplingPass entry m) p)
   = (if p = fst entry
      then map_option (\<lambda>_. length (snd entry)) (map_option efferentCoupling (map_of m p))
      else map_option efferentCoupling (map_of m p))"
  using assms
  by (auto simp: couplingPass_def markDependents_efferent map_of_map_upd option.map_comp o_def)

lemma couplingPass_dom: "dom (map_of (couplingPass entry m)) = dom (map_of m)"
proof (cases "map_of m (fst entry)")
  case None
  then show ?thesis by (simp add: couplingPass_def)
next
  case (Some a)
  then have "\<And>p. (map_of (couplingPass entry m) p = None) = (map_of m p = None)"
    using couplingPass_afferent [of m entry] by (metis option.map_disc_iff option.simps(3))
  then show ?thesis by (auto simp: dom_def)
qed

lemma passes_afferent:
  assumes "fst ` set es \<subseteq> dom (map_of m)"
  shows "map_option afferentCoupling (map_of (fold couplingPass es m) p)
   = map_option (\<lambda>a. a + (\<Sum>entry\<leftarrow>es. count_list (snd entry) p))
       (map_option afferentCoupling (map_of m p))"
  using assms
proof (induction es arbitrary: m)
  case Nil
  then show ?case by (simp add: option.map_comp o_def option.map_ident)
next
  case (Cons e es)
  have e: "map_of m (fst e) \<noteq> None" using Cons.prems by auto
  have "fst ` set es \<subseteq> dom (map_of (couplingPass e m))"
    using Cons.prems by (simp add: couplingPass_dom)
  from Cons.IH [OF this] show ?case
    by (simp add: couplingPass_afferent [OF e] option.map_comp o_def add.assoc)
qed

lemma passes_efferent:
  assumes "fst ` set es \<subseteq> dom (map_of m)" and "distinct (map fst es)"
  shows "map_option efferentCoupling (map_of (fold couplingPass es m) p)
   = (case map_of es p of
        Some ds \<Rightarrow> map_option (\<lambda>_. length ds) (map_option efferentCoupling (map_of m p))
      | None \<Rightarrow> map_option efferentCoupling (map_of m p))"
  using assms
proof (induction es arbitrary: m)
  case Nil
  then show ?case by simp
next
  case (Cons e es)
  have e: "map_of m (fst e) \<noteq> None" using Cons.prems by auto
  have sub: "fst ` set es \<subseteq> dom (map_of (couplingPass e m))"
    using Cons.prems by (simp add: couplingPass_dom)
  have d: "distinct (map fst es)" and q: "map_of es (fst e) = None"
    using Cons.prems(2) by (auto simp: map_of_eq_None_iff)
  show ?case
  proof (cases "p = fst e")
    case True
    then show ?thesis
      using Cons.IH [OF sub d] q by (simp add: couplingPass_efferent [OF e])
  next
    case False
    then show ?thesis
      using Cons.IH [OF sub d]
      by (simp add: couplingPass_efferent [OF e] split: option.splits)
  qed
qed

lemma set_map_set: "set (map_set k v m) \<subseteq> insert (k, v) (set m)"
  by (induction m) (auto split: if_splits)

lemma count_list_distinct: "distinct xs \<Longrightarrow> count_list xs x = (if x \<in> set xs then 1 else 0)"
  by (induction xs) auto

lemma fold_map_set_keys:
  "fst ` set (fold (\<lambda>x acc. map_set (K x) (V x) acc) xs acc0) = K ` set xs \<union> fst ` set acc0"
  by (induction xs arbitrary: acc0) (auto simp: fst_map_set)

lemma fold_map_set_distinct:
  "distinct (map fst acc0) \<Longrightarrow>
   distinct (map fst (fold (\<lambda>x acc. map_set (K x) (V x) acc) xs acc0))"
  by (induction xs arbitrary: acc0) (auto simp: distinct_map_set)

lemma fold_map_set_values:
  assumes "\<forall>x \<in> set xs. P (V x)" and "\<forall>e \<in> set acc0. P (snd e)"
  shows "\<forall>e \<in> set (fold (\<lambda>x acc. map_set (K x) (V x) acc) xs acc0). P (snd e)"
  using assms
proof (induction xs arbitrary: acc0)
  case Nil
  then show ?case by simp
next
  case (Cons x xs)
  have "\<forall>e \<in> set (map_set (K x) (V x) acc0). P (snd e)"
    using Cons.prems set_map_set [of "K x" "V x" acc0] by fastforce
  with Cons show ?case by simp
qed

lemma initialMetrics_keys:
  "fst ` set (initialMetrics pm files) = (\<lambda>f. normalizePath pm (pf_filePath f)) ` set files"
  by (simp add: initialMetrics_def fold_map_set_keys)

lemma initialMetrics_zero:
  assumes "map_of (initialMetrics pm files) p = Some fm"
  shows "afferentCoupling fm = 0 \<and> efferentCoupling fm = 0"
proof -
  have "\<forall>e \<in> set (initialMetrics pm files).
          afferentCoupling (snd e) = 0 \<and> efferentCoupling (snd e) = 0"
    unfolding initialMetrics_def by (rule fold_map_set_values) simp_all
  with map_of_SomeD [OF assms] show ?thesis by fastforce
qed

lemma graph_keys:
  "fst ` set (buildDependencyGraph pm files) = (\<lambda>f. normalizePath pm (pf_filePath f)) ` set files"
  by (simp add: buildDependencyGraph_def Let_def fold_map_set_keys)

lemma graph_distinct: "distinct (map fst (buildDependencyGraph pm files))"
  by (simp add: buildDependencyGraph_def Let_def fold_map_set_distinct)

lemma resolved_distinct:
  "distinct deps0 \<Longrightarrow>
   distinct (fold (\<lambda>imp deps.
                     case R imp of
                       Some resolvedPath \<Rightarrow>
                         if resolvedPath \<noteq> [] \<and> resolvedPath \<in> S
                         then set_add resolvedPath deps else deps
                     | None \<Rightarrow> deps) imps deps0)"
  by (induction imps arbitrary: deps0) (auto simp: set_add_def split: option.splits)

lemma graph_deps_distinct:
  assumes "(q, ds) \<in> set (buildDependencyGraph pm files)"
  shows "distinct ds"
proof -
  have "\<forall>e \<in> set (buildDependencyGraph pm files). distinct (snd e)"
    unfolding buildDependencyGraph_def Let_def
    by (rule fold_map_set_values) (simp_all add: resolved_distinct)
  with assms show ?thesis by fastforce
qed

lemma count_importers:
  assumes "\<forall>e \<in> set g. distinct (snd e)"
  shows "(\<Sum>entry\<leftarrow>g. count_list (snd entry) p) = length (filter (\<lambda>entry. p \<in> set (snd entry)) g)"
  using assms
proof (induction g)
  case Nil
  then show ?case by simp
next
  case (Cons e g)
  have "count_list (snd e) p = (if p \<in> set (snd e) then 1 else 0)"
    using Cons.prems by (simp add: count_list_distinct)
  with Cons show ?case by simp
qed

text \<open>
  Every input file gets a metrics entry; its Ce is the length of its dependency list
  in the graph (out-degree), its Ca the number of graph entries that list it
  (in-degree), its instability Ce/(Ca+Ce), or 0 when both are 0.
\<close>

lemma coupling_metrics:
  assumes "f \<in> set files"
      and g_def: "g = buildDependencyGraph pm files"
      and p_def: "p = normalizePath pm (pf_filePath f)"
  shows "\<exists>fm ds. map_of (calculateCouplingMetrics pm g files) p = Some fm
           \<and> map_of g p = Some ds
           \<and> efferentCoupling fm = length ds
           \<and> afferentCoupling fm = length (filter (\<lambda>entry. p \<in> set (snd entry)) g)
           \<and> instability fm
               = (if afferentCoupling fm + efferentCoupling fm > 0
                  then real (efferentCoupling fm)
                         / real (afferentCoupling fm + efferentCoupling fm)
                  else 0)
           \<and> 0 \<le> instability fm \<and> instability fm \<le> 1"
proof -
  let ?m0 = "initialMetrics pm files"
  let ?m1 = "fold couplingPass g ?m0"
  have pk: "p \<in> fst ` set ?m0" using assms(1) by (auto simp: initialMetrics_keys p_def)
  then obtain fm0 where fm0: "map_of ?m0 p = Some fm0"
    by (metis domD dom_map_of_conv_image_fst)
  have z: "afferentCoupling fm0 = 0" "efferentCoupling fm0 = 0"
    using initialMetrics_zero [OF fm0] by auto
  have sub: "fst ` set g \<subseteq> dom (map_of ?m0)"
    by (simp add: g_def graph_keys dom_map_of_conv_image_fst initialMetrics_keys)
  have "p \<in> fst ` set g" using assms(1) by (auto simp: g_def graph_keys p_def)
  then obtain ds where ds: "map_of g p = Some ds"
    by (metis domD dom_map_of_conv_image_fst)
  have dist: "distinct (map fst g)" by (simp add: g_def graph_distinct)
  have dd: "\<forall>e \<in> set g. distinct (snd e)"
    using graph_deps_distinct [of _ _ pm files] by (auto simp: g_def)
  have A: "map_option afferentCoupling (map_of ?m1 p)
             = Some (length (filter (\<lambda>entry. p \<in> set (snd entry)) g))"
    by (simp add: passes_afferent [OF sub] fm0 z count_importers [OF dd])
  have E: "map_option efferentCoupling (map_of ?m1 p) = Some (length ds)"
    by (simp add: passes_efferent [OF sub dist] fm0 ds)
  from A obtain fm1 where fm1: "map_of ?m1 p = Some fm1"
    and a1: "afferentCoupling fm1 = length (filter (\<lambda>entry. p \<in> set (snd entry)) g)"
    by auto
  from E fm1 have e1: "efferentCoupling fm1 = length ds" by simp
  let ?fin = "\<lambda>fm. fm\<lparr> instability :=
                   (if afferentCoupling fm + efferentCoupling fm > 0
                    then real (efferentCoupling fm)
                           / real (afferentCoupling fm + efferentCoupling fm)
                    else 0) \<rparr>"
  have fin: "map_of (calculateCouplingMetrics pm g files) p = Some (?fin fm1)"
    by (simp add: calculateCouplingMetrics_passes map_of_map fm1)
  have "real (efferentCoupling fm1) / real (afferentCoupling fm1 + efferentCoupling fm1) \<le> 1"
    using divide_le_eq_1 [of "real (efferentCoupling fm1)"
        "real (afferentCoupling fm1 + efferentCoupling fm1)"]
    by (cases "afferentCoupling fm1 + efferentCoupling fm1 = 0") auto
  then show ?thesis
    using fin ds a1 e1 by simp
qed

text \<open>In the example both files have Ca = Ce = 1 and instability one half.\<close>

lemma two_files_instability:
  "map (\<lambda>(p, fm). (p, afferentCoupling fm, efferentCoupling fm, instability fm))
     (calculateCouplingMetrics fx_pm (buildDependencyGraph fx_pm [file_a, file_b])
        [file_a, file_b])
   = [(''/src/a.ts'', 1, 1, 1 / 2), (''/src/b.ts'', 1, 1, 1 / 2)]"
  by code_simp

end
